theory Spec2Isabelle
  imports Complex_Main
begin

section \<open>YouTube Watch Logger: the background pipeline\<close>

text \<open>
  A shallow embedding of \<^verbatim>\<open>background.js\<close> (duration parsing, Shorts inference, the
  category cache, the retrying metadata fetch, the dedup guard, the bounded log and the
  orchestrator \<^verbatim>\<open>logYouTubeWatch\<close>) and of the clear handler of \<^verbatim>\<open>popup.js\<close>.

  Conventions. A JavaScript value that may be \<^verbatim>\<open>null\<close> or \<^verbatim>\<open>undefined\<close> is an
  \<open>option\<close>. A thrown exception or a rejected promise is \<open>Inl\<close> of a sum type. A
  JavaScript number is a double: the numbers of the duration parser are modelled with
  the rounding of double arithmetic and with \<^verbatim>\<open>Infinity\<close>; time stamps in milliseconds,
  which stay far below \<open>2^53\<close>, where doubles are exact, are integers. One intake
  is modelled in isolation: every \<^verbatim>\<open>await\<close> is a sequencing point of a single task.
\<close>

subsection \<open>Utilities\<close>

text \<open>The character class \<^verbatim>\<open>\d\<close> of a JavaScript regular expression: the ASCII digits.\<close>

definition is_digit :: "char \<Rightarrow> bool" where
  "is_digit c = (c \<in> set ''0123456789'')"

text \<open>The value of a digit: its character code less the code 48 of the digit zero.\<close>

definition digit_val :: "char \<Rightarrow> nat" where
  "digit_val c = of_char c - 48"

text \<open>The integer that a string of decimal digits denotes.\<close>

definition decimal_value :: "string \<Rightarrow> nat" where
  "decimal_value ds = foldl (\<lambda>acc c. 10 * acc + digit_val c) 0 ds"

text \<open>
  The JavaScript numbers that occur here: a double whose value is an integer, or
  \<^verbatim>\<open>Infinity\<close>.
\<close>

datatype number = Num int | Infinity

text \<open>The number of binary digits of \<open>n\<close>.\<close>

function bit_length :: "nat \<Rightarrow> nat" where
  "bit_length n = (if n = 0 then 0 else Suc (bit_length (n div 2)))"
  by pat_completeness auto
termination
  by (relation "measure (\<lambda>n. n)") auto

declare bit_length.simps [simp del]

text \<open>
  The double nearest to a natural number, as IEEE 754 rounds (to nearest, ties to the
  even significand). A double has a significand of 53 binary digits, so every natural
  number below \<open>2^53 = 9007199254740992\<close> is a double. A larger \<open>n\<close> of \<open>53 + e\<close> binary
  digits lies between two neighbouring multiples of \<open>2^e\<close>, which are doubles, and is
  rounded to the nearer one; a result of \<open>2^1024\<close> or more overflows to \<^verbatim>\<open>Infinity\<close>.
\<close>

definition to_double :: "nat \<Rightarrow> number" where
  "to_double n =
     (if n < 9007199254740992 then Num (int n)
      else
        (let e = bit_length n - 53;
             q = n div 2 ^ e;
             r = n mod 2 ^ e;
             q1 = (if 2 * r > 2 ^ e \<or> (2 * r = 2 ^ e \<and> odd q) then q + 1 else q)
         in if q1 * 2 ^ e \<ge> 2 ^ 1024 then Infinity else Num (int (q1 * 2 ^ e))))"

text \<open>
  \<^verbatim>\<open>parseInt(x, 10)\<close> on a string of decimal digits, the only strings the duration
  parser hands to it (a capture of \<^verbatim>\<open>(\d+)\<close>, or the literal \<^verbatim>\<open>"0"\<close>): the double
  nearest to the integer the digits denote, which is what V8 returns for a digit run of
  any length.
\<close>

definition parseInt10 :: "string \<Rightarrow> number" where
  "parseInt10 ds = to_double (decimal_value ds)"

text \<open>
  The product \<^verbatim>\<open>x * c\<close> and the sum \<^verbatim>\<open>x + y\<close> of doubles, for numbers that are not
  negative, as all numbers of the duration parser are: the exact result, rounded to the
  nearest double. \<^verbatim>\<open>Infinity\<close> times a positive constant and \<^verbatim>\<open>Infinity\<close> plus a number
  of this kind are \<^verbatim>\<open>Infinity\<close>.
\<close>

definition times_double :: "number \<Rightarrow> nat \<Rightarrow> number" where
  "times_double x c = (case x of Num a \<Rightarrow> to_double (nat a * c) | Infinity \<Rightarrow> Infinity)"

definition plus_double :: "number \<Rightarrow> number \<Rightarrow> number" where
  "plus_double x y =
     (case x of
        Infinity \<Rightarrow> Infinity
      | Num a \<Rightarrow> (case y of Infinity \<Rightarrow> Infinity | Num b \<Rightarrow> to_double (nat a + nat b)))"

text \<open>\<^verbatim>\<open>x <= c\<close> for a number \<open>x\<close> and an integer constant \<open>c\<close>.\<close>

definition number_le :: "number \<Rightarrow> int \<Rightarrow> bool" where
  "number_le x c = (case x of Num a \<Rightarrow> a \<le> c | Infinity \<Rightarrow> False)"

text \<open>
  One optional group \<^verbatim>\<open>(?:(\d+)U)?\<close> matched at the head of \<open>s\<close>, for a unit letter
  \<open>U\<close>: the capture and the rest of the input. The quantifier \<^verbatim>\<open>\d+\<close> is greedy, and
  giving a digit back cannot help, since the character after a shorter run of digits is
  a digit and not the unit letter. So the group matches exactly when the maximal run of
  digits is non-empty and is followed by the unit letter; otherwise it matches the
  empty string and captures nothing.
\<close>

definition opt_group :: "char \<Rightarrow> string \<Rightarrow> string option \<times> string" where
  "opt_group u s =
     (let ds = takeWhile is_digit s; rest = dropWhile is_digit s
      in if ds \<noteq> [] \<and> rest \<noteq> [] \<and> hd rest = u then (Some ds, tl rest) else (None, s))"

text \<open>
  The three groups after a matched \<^verbatim>\<open>PT\<close>. Every group is optional, so once \<^verbatim>\<open>PT\<close> is
  found the whole expression matches and no later failure forces a group to be undone.
\<close>

definition groups_after_PT :: "string \<Rightarrow> string option \<times> string option \<times> string option" where
  "groups_after_PT s =
     (let (h, s1) = opt_group CHR ''H'' s;
          (mi, s2) = opt_group CHR ''M'' s1;
          (sec, s3) = opt_group CHR ''S'' s2
      in (h, mi, sec))"

text \<open>
  \<^verbatim>\<open>/PT(?:(\d+)H)?(?:(\d+)M)?(?:(\d+)S)?/.exec(s)\<close>: the expression is not anchored, so
  the match starts at the leftmost \<^verbatim>\<open>PT\<close> of the input; \<open>None\<close> is the \<^verbatim>\<open>null\<close> of a
  failed match.
\<close>

fun regex_exec :: "string \<Rightarrow> (string option \<times> string option \<times> string option) option" where
  "regex_exec [] = None"
| "regex_exec [c] = None"
| "regex_exec (c # d # cs) =
     (if c = CHR ''P'' \<and> d = CHR ''T'' then Some (groups_after_PT cs)
      else regex_exec (d # cs))"

text \<open>
  \<^verbatim>\<open>x || "0"\<close> for a capture \<open>x\<close>: an unmatched group is \<^verbatim>\<open>undefined\<close>, and a matched one
  is a non-empty string.
\<close>

definition capture_or_zero :: "string option \<Rightarrow> string" where
  "capture_or_zero x = (case x of None \<Rightarrow> ''0'' | Some ds \<Rightarrow> if ds = [] then ''0'' else ds)"

text \<open>
  \<^verbatim>\<open>parseISODurationToSeconds(iso)\<close>. The argument \<open>duration\<close> (the source's
  \<^verbatim>\<open>iso\<close>) is \<open>None\<close> when the API response has no duration; \<^verbatim>\<open>iso || ""\<close> turns
  that into the empty string. The result is \<^verbatim>\<open>(h * 3600 + min * 60) + s\<close> in double
  arithmetic; \<^verbatim>\<open>(h || 0)\<close> changes nothing, since \<open>h\<close> is never \<^verbatim>\<open>NaN\<close>.
\<close>

definition parseISODurationToSeconds :: "string option \<Rightarrow> number option" where
  "parseISODurationToSeconds duration =
     (case regex_exec (case duration of None \<Rightarrow> [] | Some s \<Rightarrow> s) of
        None \<Rightarrow> None
      | Some (h, mi, s) \<Rightarrow>
          Some (plus_double
                  (plus_double (times_double (parseInt10 (capture_or_zero h)) 3600)
                               (times_double (parseInt10 (capture_or_zero mi)) 60))
                  (parseInt10 (capture_or_zero s))))"

text \<open>\<^verbatim>\<open>String.prototype.includes\<close>: \<open>p\<close> occurs in \<open>s\<close> as a contiguous substring.\<close>

fun includes_str :: "string \<Rightarrow> string \<Rightarrow> bool" where
  "includes_str [] p = (p = [])"
| "includes_str (c # cs) p = (take (length p) (c # cs) = p \<or> includes_str cs p)"

text \<open>
  \<^verbatim>\<open>inferIsShorts({ url, durationSeconds })\<close>. The url is \<open>None\<close> when the message
  carried none; the duration is \<^verbatim>\<open>null\<close> or a number, and \<^verbatim>\<open>Infinity <= 60\<close> is false.
\<close>

definition inferIsShorts :: "string option \<Rightarrow> number option \<Rightarrow> bool" where
  "inferIsShorts url durationSeconds =
     (if (case url of None \<Rightarrow> False | Some u \<Rightarrow> includes_str u ''/shorts/'') then True
      else if (case durationSeconds of None \<Rightarrow> False | Some d \<Rightarrow> number_le d 60) then True
      else False)"

text \<open>
  \<^verbatim>\<open>x || null\<close> on a string that may be absent: the empty string is falsy, like
  \<^verbatim>\<open>undefined\<close>. The same test is the truthiness of \<^verbatim>\<open>!categoryId\<close> and of
  \<^verbatim>\<open>meta.channelId\<close>.
\<close>

definition or_null :: "string option \<Rightarrow> string option" where
  "or_null x = (case x of None \<Rightarrow> None | Some s \<Rightarrow> if s = [] then None else Some s)"

subsection \<open>Data model\<close>

text \<open>
  The outcome of one \<^verbatim>\<open>fetch\<close> followed by \<^verbatim>\<open>res.json()\<close>: the request promise
  rejects (transport failure), the response is not \<^verbatim>\<open>ok\<close> (with its status), the body
  promise rejects, or the body arrives. The body is abstracted to the part the code
  reads: \<^verbatim>\<open>data?.items?.[0]\<close> for videos and channels, and
  \<^verbatim>\<open>data?.items?.[0]?.snippet?.title\<close> for categories.
\<close>

datatype 'a response = Rejected | NotOk nat | BadJson | Ok 'a

datatype error = FetchRejected | VideosListError nat | BodyRejected | VideoNotFound

text \<open>
  The fields of a \<^verbatim>\<open>videos.list\<close> item that the code reads. A missing \<^verbatim>\<open>snippet\<close>,
  \<^verbatim>\<open>contentDetails\<close> or \<^verbatim>\<open>status\<close> object defaults to \<^verbatim>\<open>{}\<close>, which is every field
  of it absent. The fields that are only copied into the entry and that no decision
  depends on (thumbnails, languages, definition, region restriction, content rating,
  the three counters and the topic categories) are left out of the records below.
\<close>

record video_resource =
  v_id :: "string option"
  snippet_title :: "string option"
  snippet_description :: "string option"
  snippet_publishedAt :: "string option"
  snippet_channelId :: "string option"
  snippet_channelTitle :: "string option"
  snippet_tags :: "string list option"
  snippet_categoryId :: "string option"
  snippet_liveBroadcastContent :: "string option"
  contentDetails_duration :: "string option"
  contentDetails_caption :: "string option"
  status_madeForKids :: "bool option"

record meta =
  meta_videoId :: "string option"
  meta_title :: "string option"
  meta_description :: "string option"
  meta_publishedAt :: "string option"
  meta_channelId :: "string option"
  meta_channelTitle :: "string option"
  meta_tags :: "string list"
  meta_categoryId :: "string option"
  meta_durationSeconds :: "number option"
  meta_caption :: "bool option"
  meta_liveContent :: string
  meta_madeForKids :: "bool option"

record channel_resource =
  c_id :: "string option"
  sn_customUrl :: "string option"
  sn_country :: "string option"
  sn_description :: "string option"

record channel_basics =
  cb_channelId :: "string option"
  cb_customUrl :: "string option"
  cb_channelCountry :: "string option"
  cb_channelDescription :: "string option"

text \<open>A log entry; \<open>entry_watchedAt\<close> is the time stamp in milliseconds.\<close>

record entry =
  entry_videoId :: string
  entry_url :: "string option"
  entry_profile :: string
  entry_title :: "string option"
  entry_description :: "string option"
  entry_channelId :: "string option"
  entry_channelTitle :: "string option"
  entry_publishedAt :: "string option"
  entry_durationSeconds :: "number option"
  entry_isShorts :: bool
  entry_liveContent :: string
  entry_categoryId :: "string option"
  entry_categoryName :: "string option"
  entry_tags :: "string list"
  entry_caption :: "bool option"
  entry_madeForKids :: "bool option"
  entry_watchedAt :: int
  entry_channelExtra :: "channel_basics option"

record playlist_link =
  pl_url :: string
  pl_count :: nat
  pl_createdAt :: int

text \<open>
  A value read from \<^verbatim>\<open>chrome.storage.local\<close> under a key whose default is \<^verbatim>\<open>[]\<close>: an
  array, or something else, which \<^verbatim>\<open>Array.isArray(x) ? x : []\<close> replaces by the empty
  array. An absent key reads as the default, \<open>Arr []\<close>.
\<close>

datatype 'a stored = NonArray | Arr "'a list"

definition as_array :: "'a stored \<Rightarrow> 'a list" where
  "as_array x = (case x of NonArray \<Rightarrow> [] | Arr xs \<Rightarrow> xs)"

text \<open>The effects of the pipeline that can be observed from outside, in order.\<close>

datatype event =
    ConfigRead
  | DedupCheck string
  | FetchPrimary string string
  | Backoff nat
  | FetchCategory string string string
  | FetchChannel string string
  | AppendLog entry
  | MarkLogged string
  | Notify entry
  | ReportError error

text \<open>
  The state of the extension and of its environment. \<open>sync_apiKey\<close> and
  \<open>sync_profile\<close> are \<^verbatim>\<open>chrome.storage.sync\<close>; \<open>watchLog\<close>, \<open>lastLogged\<close> (key to
  time stamp in milliseconds) and \<open>playlistLinks\<close> are \<^verbatim>\<open>chrome.storage.local\<close>;
  \<open>categoryNameCache\<close> is the \<^verbatim>\<open>Map\<close> of the background script, whose values may be
  \<^verbatim>\<open>null\<close>. The environment is given by what it will answer: \<open>videos_api w n\<close> is the
  outcome of the \<open>n\<close>-th coming request to that endpoint (likewise for the other two
  endpoints), and \<open>clock w n\<close> is what the \<open>n\<close>-th coming reading of the time returns.
  A request or a reading consumes the head of its stream.
\<close>

record world =
  sync_apiKey :: "string option"
  sync_profile :: "string option"
  watchLog :: "entry stored"
  lastLogged :: "string \<rightharpoonup> int"
  playlistLinks :: "playlist_link stored"
  categoryNameCache :: "string \<rightharpoonup> string option"
  videos_api :: "nat \<Rightarrow> video_resource option response"
  categories_api :: "nat \<Rightarrow> string option response"
  channels_api :: "nat \<Rightarrow> channel_resource option response"
  clock :: "nat \<Rightarrow> int"
  trace :: "event list"

definition emit :: "event \<Rightarrow> world \<Rightarrow> world" where
  "emit ev w = w\<lparr>trace := trace w @ [ev]\<rparr>"

text \<open>\<^verbatim>\<open>Date.now()\<close> and \<^verbatim>\<open>new Date()\<close>: the next reading of the clock.\<close>

definition date_now :: "world \<Rightarrow> int \<times> world" where
  "date_now w = (clock w 0, w\<lparr>clock := (\<lambda>n. clock w (Suc n))\<rparr>)"

text \<open>\<^verbatim>\<open>sleep(ms)\<close>: the task waits; nothing of the state changes.\<close>

definition sleep :: "nat \<Rightarrow> world \<Rightarrow> world" where
  "sleep ms w = emit (Backoff ms) w"

subsection \<open>Configuration\<close>

text \<open>
  \<^verbatim>\<open>getConfig()\<close>: \<^verbatim>\<open>chrome.storage.sync.get({ apiKey: "", profile: "Child" })\<close>, the
  pair \<open>(apiKey, profile)\<close> with the defaults for absent keys.
\<close>

definition getConfig :: "world \<Rightarrow> (string \<times> string) \<times> world" where
  "getConfig w =
     (((case sync_apiKey w of None \<Rightarrow> [] | Some k \<Rightarrow> k),
       (case sync_profile w of None \<Rightarrow> ''Child'' | Some p \<Rightarrow> p)),
      emit ConfigRead w)"

subsection \<open>Category name cache\<close>

definition categories_list :: "string \<Rightarrow> string \<Rightarrow> string \<Rightarrow> world \<Rightarrow> string option response \<times> world" where
  "categories_list cid apiKey regionCode w =
     (categories_api w 0,
      emit (FetchCategory regionCode cid apiKey) (w\<lparr>categories_api := (\<lambda>n. categories_api w (Suc n))\<rparr>))"

text \<open>
  \<^verbatim>\<open>getCategoryName(categoryId, apiKey, regionCode = "US")\<close>. A response that is not
  \<^verbatim>\<open>ok\<close> returns \<^verbatim>\<open>null\<close> before the cache is written; a rejected request or body
  is an exception, which the function does not catch.
\<close>

definition getCategoryName :: "string option \<Rightarrow> string \<Rightarrow> string \<Rightarrow> world \<Rightarrow> (error + string option) \<times> world" where
  "getCategoryName categoryId apiKey regionCode w =
     (case or_null categoryId of
        None \<Rightarrow> (Inr None, w)
      | Some cid \<Rightarrow>
          (let cacheKey = regionCode @ '':'' @ cid in
           case categoryNameCache w cacheKey of
             Some cached \<Rightarrow> (Inr cached, w)
           | None \<Rightarrow>
               (let (res, w1) = categories_list cid apiKey regionCode w in
                case res of
                  Rejected \<Rightarrow> (Inl FetchRejected, w1)
                | NotOk st \<Rightarrow> (Inr None, w1)
                | BadJson \<Rightarrow> (Inl BodyRejected, w1)
                | Ok t \<Rightarrow>
                    (let name = or_null t in
                     (Inr name,
                      w1\<lparr>categoryNameCache := (categoryNameCache w1)(cacheKey \<mapsto> name)\<rparr>)))))"

subsection \<open>Metadata fetcher\<close>

definition videos_list :: "string \<Rightarrow> string \<Rightarrow> world \<Rightarrow> video_resource option response \<times> world" where
  "videos_list videoId apiKey w =
     (videos_api w 0,
      emit (FetchPrimary videoId apiKey) (w\<lparr>videos_api := (\<lambda>n. videos_api w (Suc n))\<rparr>))"

text \<open>The object literal that \<^verbatim>\<open>fetchVideoMetadataRich\<close> returns for an item \<open>v\<close>.\<close>

definition to_meta :: "video_resource \<Rightarrow> meta" where
  "to_meta v =
     \<lparr> meta_videoId = v_id v,
       meta_title = or_null (snippet_title v),
       meta_description = or_null (snippet_description v),
       meta_publishedAt = or_null (snippet_publishedAt v),
       meta_channelId = or_null (snippet_channelId v),
       meta_channelTitle = or_null (snippet_channelTitle v),
       meta_tags = (case snippet_tags v of None \<Rightarrow> [] | Some ts \<Rightarrow> ts),
       meta_categoryId = or_null (snippet_categoryId v),
       meta_durationSeconds = parseISODurationToSeconds (contentDetails_duration v),
       meta_caption = Some (contentDetails_caption v = Some ''true''),
       meta_liveContent =
         (case or_null (snippet_liveBroadcastContent v) of None \<Rightarrow> ''none'' | Some l \<Rightarrow> l),
       meta_madeForKids = status_madeForKids v \<rparr>"

text \<open>
  The body of the \<^verbatim>\<open>try\<close> block for one response: what is thrown (\<open>Inl\<close>) or returned.
\<close>

definition attempt_result :: "video_resource option response \<Rightarrow> error + meta" where
  "attempt_result res =
     (case res of
        Rejected \<Rightarrow> Inl FetchRejected
      | NotOk st \<Rightarrow> Inl (VideosListError st)
      | BadJson \<Rightarrow> Inl BodyRejected
      | Ok None \<Rightarrow> Inl VideoNotFound
      | Ok (Some v) \<Rightarrow> Inr (to_meta v))"

text \<open>
  The \<^verbatim>\<open>while (true)\<close> loop of \<^verbatim>\<open>fetchVideoMetadataRich\<close>, with the loop variable
  \<open>attempt\<close> as an argument.
\<close>

function fetch_loop :: "string \<Rightarrow> string \<Rightarrow> nat \<Rightarrow> nat \<Rightarrow> world \<Rightarrow> (error + meta) \<times> world" where
  "fetch_loop videoId apiKey maxRetries attempt w =
     (let (res, w1) = videos_list videoId apiKey w in
      case attempt_result res of
        Inr m \<Rightarrow> (Inr m, w1)
      | Inl e \<Rightarrow>
          if attempt \<ge> maxRetries then (Inl e, w1)
          else fetch_loop videoId apiKey maxRetries (attempt + 1) (sleep (300 * (attempt + 1)) w1))"
  by pat_completeness auto
termination
  by (relation "measure (\<lambda>(videoId, apiKey, maxRetries, attempt, w). maxRetries - attempt)") auto

definition fetchVideoMetadataRich :: "string \<Rightarrow> string \<Rightarrow> nat \<Rightarrow> world \<Rightarrow> (error + meta) \<times> world" where
  "fetchVideoMetadataRich videoId apiKey maxRetries w = fetch_loop videoId apiKey maxRetries 0 w"

definition channels_list :: "string \<Rightarrow> string \<Rightarrow> world \<Rightarrow> channel_resource option response \<times> world" where
  "channels_list cid apiKey w =
     (channels_api w 0,
      emit (FetchChannel cid apiKey) (w\<lparr>channels_api := (\<lambda>n. channels_api w (Suc n))\<rparr>))"

text \<open>\<^verbatim>\<open>fetchChannelBasics(channelId, apiKey)\<close>.\<close>

definition fetchChannelBasics :: "string option \<Rightarrow> string \<Rightarrow> world \<Rightarrow> (error + channel_basics option) \<times> world" where
  "fetchChannelBasics channelId apiKey w =
     (case or_null channelId of
        None \<Rightarrow> (Inr None, w)
      | Some cid \<Rightarrow>
          (let (res, w1) = channels_list cid apiKey w in
           case res of
             Rejected \<Rightarrow> (Inl FetchRejected, w1)
           | NotOk st \<Rightarrow> (Inr None, w1)
           | BadJson \<Rightarrow> (Inl BodyRejected, w1)
           | Ok None \<Rightarrow> (Inr None, w1)
           | Ok (Some c) \<Rightarrow>
               (Inr (Some \<lparr> cb_channelId = c_id c,
                             cb_customUrl = or_null (sn_customUrl c),
                             cb_channelCountry = or_null (sn_country c),
                             cb_channelDescription = or_null (sn_description c) \<rparr>), w1)))"

subsection \<open>Dedup guard\<close>

text \<open>The key \<^verbatim>\<open>`${profile}:${videoId}`\<close> of the dedup table.\<close>

definition dedup_key :: "string \<Rightarrow> string \<Rightarrow> string" where
  "dedup_key profile videoId = profile @ '':'' @ videoId"

text \<open>
  \<^verbatim>\<open>recentlyLogged(profile, videoId, ttlMinutes = 120)\<close>. The clock is read only when a
  record exists. \<open>ageMin\<close> is the quotient the code computes, as a rational number.
\<close>

definition recentlyLogged :: "string \<Rightarrow> string \<Rightarrow> rat \<Rightarrow> world \<Rightarrow> bool \<times> world" where
  "recentlyLogged profile videoId ttlMinutes w =
     (let key = dedup_key profile videoId; w1 = emit (DedupCheck key) w in
      case lastLogged w1 key of
        None \<Rightarrow> (False, w1)
      | Some lastTime \<Rightarrow>
          (let (now, w2) = date_now w1;
               ageMin = of_int (now - lastTime) / 60000
           in (ageMin < ttlMinutes, w2)))"

text \<open>\<^verbatim>\<open>markLogged(profile, videoId)\<close>.\<close>

definition markLogged :: "string \<Rightarrow> string \<Rightarrow> world \<Rightarrow> world" where
  "markLogged profile videoId w =
     (let key = dedup_key profile videoId;
          (now, w1) = date_now w
      in emit (MarkLogged key) (w1\<lparr>lastLogged := (lastLogged w1)(key \<mapsto> now)\<rparr>))"

subsection \<open>Log store\<close>

text \<open>\<^verbatim>\<open>list.splice(0, n)\<close>: removes the first \<open>n\<close> elements in place.\<close>

definition splice0 :: "nat \<Rightarrow> 'a list \<Rightarrow> 'a list" where
  "splice0 n xs = drop n xs"

text \<open>\<^verbatim>\<open>setLogEntry(entry, maxEntries = 5000)\<close>.\<close>

definition setLogEntry :: "entry \<Rightarrow> nat \<Rightarrow> world \<Rightarrow> world" where
  "setLogEntry e maxEntries w =
     (let list0 = as_array (watchLog w);
          list1 = list0 @ [e];
          list2 = (if length list1 > maxEntries
                   then splice0 (length list1 - maxEntries) list1 else list1)
      in emit (AppendLog e) (w\<lparr>watchLog := Arr list2\<rparr>))"

subsection \<open>Orchestrator\<close>

text \<open>The minimal metadata used when no API key is set.\<close>

definition fallback_meta :: "string \<Rightarrow> meta" where
  "fallback_meta videoId =
     \<lparr> meta_videoId = Some videoId,
       meta_title = None,
       meta_description = None,
       meta_publishedAt = None,
       meta_channelId = None,
       meta_channelTitle = None,
       meta_tags = [],
       meta_categoryId = None,
       meta_durationSeconds = None,
       meta_caption = None,
       meta_liveContent = ''none'',
       meta_madeForKids = None \<rparr>"

text \<open>The entry object assembled by \<^verbatim>\<open>logYouTubeWatch\<close>.\<close>

definition build_entry ::
  "string \<Rightarrow> string option \<Rightarrow> string \<Rightarrow> meta \<Rightarrow> string option \<Rightarrow> channel_basics option \<Rightarrow> int \<Rightarrow> entry" where
  "build_entry videoId url profile m categoryName channelExtra now =
     \<lparr> entry_videoId = videoId,
       entry_url = url,
       entry_profile = profile,
       entry_title = meta_title m,
       entry_description = meta_description m,
       entry_channelId = meta_channelId m,
       entry_channelTitle = meta_channelTitle m,
       entry_publishedAt = meta_publishedAt m,
       entry_durationSeconds = meta_durationSeconds m,
       entry_isShorts = inferIsShorts url (meta_durationSeconds m),
       entry_liveContent = meta_liveContent m,
       entry_categoryId = meta_categoryId m,
       entry_categoryName = categoryName,
       entry_tags = meta_tags m,
       entry_caption = meta_caption m,
       entry_madeForKids = meta_madeForKids m,
       entry_watchedAt = now,
       entry_channelExtra = channelExtra \<rparr>"

text \<open>
  Sequencing inside the \<^verbatim>\<open>try\<close> block: an exception of the first computation skips
  the rest.
\<close>

definition and_then ::
  "(world \<Rightarrow> (error + 'a) \<times> world) \<Rightarrow> ('a \<Rightarrow> world \<Rightarrow> (error + 'b) \<times> world)
     \<Rightarrow> world \<Rightarrow> (error + 'b) \<times> world" where
  "and_then m f w = (case m w of (Inl e, w1) \<Rightarrow> (Inl e, w1) | (Inr x, w1) \<Rightarrow> f x w1)"

text \<open>
  The \<^verbatim>\<open>try\<close> block of \<^verbatim>\<open>logYouTubeWatch({ videoId, url })\<close>: \<open>Inl\<close> is an exception on
  its way to the \<^verbatim>\<open>catch\<close>, \<open>Inr ()\<close> a normal end (the early \<^verbatim>\<open>return\<close> of a duplicate,
  or the end of the block).
\<close>

definition logYouTubeWatch_try :: "string \<Rightarrow> string option \<Rightarrow> world \<Rightarrow> (error + unit) \<times> world" where
  "logYouTubeWatch_try videoId url w =
     (let ((apiKey, profile), w1) = getConfig w;
          (recent, w2) = recentlyLogged profile videoId 120 w1
      in if recent then (Inr (), w2)
         else
           and_then
             (if apiKey \<noteq> [] then fetchVideoMetadataRich videoId apiKey 3
              else (\<lambda>w. (Inr (fallback_meta videoId), w)))
             (\<lambda>m. and_then
                (if apiKey \<noteq> [] then getCategoryName (meta_categoryId m) apiKey ''US''
                 else (\<lambda>w. (Inr None, w)))
                (\<lambda>categoryName. and_then
                   (if apiKey \<noteq> [] \<and> or_null (meta_channelId m) \<noteq> None
                    then fetchChannelBasics (meta_channelId m) apiKey
                    else (\<lambda>w. (Inr None, w)))
                   (\<lambda>channelExtra w5.
                      (let (now, w6) = date_now w5;
                           e = build_entry videoId url profile m categoryName channelExtra now;
                           w7 = setLogEntry e 5000 w6;
                           w8 = markLogged profile videoId w7
                       in (Inr (), emit (Notify e) w8)))))
             w2)"

text \<open>
  \<^verbatim>\<open>logYouTubeWatch\<close>: the \<^verbatim>\<open>catch\<close> reports the exception with \<^verbatim>\<open>console.error\<close> and
  nothing reaches the caller.
\<close>

definition logYouTubeWatch :: "string \<Rightarrow> string option \<Rightarrow> world \<Rightarrow> world" where
  "logYouTubeWatch videoId url w =
     (case logYouTubeWatch_try videoId url w of
        (Inl err, w1) \<Rightarrow> emit (ReportError err) w1
      | (Inr u, w1) \<Rightarrow> w1)"

subsection \<open>The popup: playlist links and clearing\<close>

text \<open>\<^verbatim>\<open>rememberPlaylistLink(playlistUrl, count)\<close> of \<^verbatim>\<open>popup.js\<close>.\<close>

definition rememberPlaylistLink :: "string \<Rightarrow> nat \<Rightarrow> world \<Rightarrow> world" where
  "rememberPlaylistLink playlistUrl n w =
     (let updated = as_array (playlistLinks w);
          (now, w1) = date_now w
      in w1\<lparr>playlistLinks :=
              Arr (updated @ [\<lparr> pl_url = playlistUrl, pl_count = n, pl_createdAt = now \<rparr>])\<rparr>)"

text \<open>
  The click handler of the \<^verbatim>\<open>clear\<close> button; \<open>confirmed\<close> is the answer to
  \<^verbatim>\<open>confirm("Clear all logged items?")\<close>.
\<close>

definition clear_click :: "bool \<Rightarrow> world \<Rightarrow> world" where
  "clear_click confirmed w =
     (if \<not> confirmed then w else w\<lparr>watchLog := Arr [], playlistLinks := Arr []\<rparr>)"

declare fetch_loop.simps [simp del]

subsection \<open>Notions used to state the properties\<close>







text \<open>\<open>p\<close> occurs in \<open>s\<close>: the meaning of ``the url contains the segment''.\<close>

definition contains :: "string \<Rightarrow> string \<Rightarrow> bool" where
  "contains s p = (\<exists>a b. s = a @ p @ b)"

text \<open>A sequence of appends to the log, each with the same capacity.\<close>

definition appends :: "entry list \<Rightarrow> nat \<Rightarrow> world \<Rightarrow> world" where
  "appends es maxEntries w = foldl (\<lambda>w1 e. setLogEntry e maxEntries w1) w es"

text \<open>
  A concrete state for the examples: nothing stored, no configuration, a network on
  which the primary request is rejected and the enrichment requests answer with status
  500, and a clock that advances by one second per reading.
\<close>

definition sample_world :: world where
  "sample_world =
     \<lparr> sync_apiKey = None, sync_profile = None,
       watchLog = Arr [], lastLogged = Map.empty, playlistLinks = Arr [],
       categoryNameCache = Map.empty,
       videos_api = (\<lambda>n. Rejected), categories_api = (\<lambda>n. NotOk 500),
       channels_api = (\<lambda>n. NotOk 500),
       clock = (\<lambda>n. 1000 * int n), trace = [] \<rparr>"

definition sample_entry :: "string \<Rightarrow> entry" where
  "sample_entry videoId = build_entry videoId None ''Child'' (fallback_meta videoId) None None 0"

text \<open>
  The configuration an intake reads, and whether the dedup guard suppresses it: the
  results of the first two steps of \<open>logYouTubeWatch\<close>.
\<close>

definition configured_apiKey :: "world \<Rightarrow> string" where
  "configured_apiKey w = fst (fst (getConfig w))"

definition configured_profile :: "world \<Rightarrow> string" where
  "configured_profile w = snd (fst (getConfig w))"

definition suppressed :: "string \<Rightarrow> world \<Rightarrow> bool" where
  "suppressed videoId w = fst (recentlyLogged (configured_profile w) videoId 120 (snd (getConfig w)))"

text \<open>A response on which \<^verbatim>\<open>await fetch(...)\<close> or \<^verbatim>\<open>await res.json()\<close> throws.\<close>

definition rejects :: "'a response \<Rightarrow> bool" where
  "rejects r = (case r of Rejected \<Rightarrow> True | BadJson \<Rightarrow> True | NotOk st \<Rightarrow> False | Ok b \<Rightarrow> False)"

text \<open>The kinds of events: an enrichment request; a primary request or a backoff wait.\<close>

definition is_enrichment :: "event \<Rightarrow> bool" where
  "is_enrichment ev =
     (case ev of FetchCategory r c k \<Rightarrow> True | FetchChannel c k \<Rightarrow> True | _ \<Rightarrow> False)"

definition is_attempt_event :: "event \<Rightarrow> bool" where
  "is_attempt_event ev = (case ev of FetchPrimary v k \<Rightarrow> True | Backoff ms \<Rightarrow> True | _ \<Rightarrow> False)"

definition primary_requests :: "event list \<Rightarrow> nat" where
  "primary_requests evs =
     length (filter (\<lambda>ev. case ev of FetchPrimary v k \<Rightarrow> True | _ \<Rightarrow> False) evs)"

text \<open>
  Two states agree on the persistent stores (\<^verbatim>\<open>chrome.storage.sync\<close> and
  \<^verbatim>\<open>chrome.storage.local\<close>), respectively on what the network will answer, that is, no
  request was made in between.
\<close>

definition same_storage :: "world \<Rightarrow> world \<Rightarrow> bool" where
  "same_storage w w' =
     (sync_apiKey w' = sync_apiKey w \<and> sync_profile w' = sync_profile w
      \<and> watchLog w' = watchLog w \<and> lastLogged w' = lastLogged w
      \<and> playlistLinks w' = playlistLinks w)"

definition same_network :: "world \<Rightarrow> world \<Rightarrow> bool" where
  "same_network w w' =
     (videos_api w' = videos_api w \<and> categories_api w' = categories_api w
      \<and> channels_api w' = channels_api w)"

text \<open>
  \<open>leading_failures f b\<close>: how many of the coming responses \<open>f 0, f 1, \<dots>\<close> fail before
  the first one that succeeds, counting at most \<open>b\<close>. \<open>retry_events rq attempt k\<close>: the
  events of \<open>k\<close> failed requests, each followed by its wait, and of one more request, when
  the loop variable starts at \<open>attempt\<close>.
\<close>

fun leading_failures :: "(nat \<Rightarrow> video_resource option response) \<Rightarrow> nat \<Rightarrow> nat" where
  "leading_failures f 0 = 0"
| "leading_failures f (Suc b) =
     (if isl (attempt_result (f 0)) then Suc (leading_failures (\<lambda>n. f (Suc n)) b) else 0)"

fun retry_events :: "event \<Rightarrow> nat \<Rightarrow> nat \<Rightarrow> event list" where
  "retry_events rq attempt 0 = [rq]"
| "retry_events rq attempt (Suc k) =
     rq # Backoff (300 * (attempt + 1)) # retry_events rq (attempt + 1) k"

text \<open>
  The three stages of the \<^verbatim>\<open>try\<close> block after the dedup check, named so that lemmas can
  speak about them: the primary fetch or the fallback, the two enrichment lookups, and
  the assembly of the entry with append, mark and notification. The lemma
  \<open>logYouTubeWatch_stages\<close> below shows that \<open>logYouTubeWatch\<close> is their composition.
\<close>

definition enrich_stage ::
  "string \<Rightarrow> meta \<Rightarrow> world \<Rightarrow> (error + string option \<times> channel_basics option) \<times> world" where
  "enrich_stage apiKey m w =
     and_then
       (if apiKey \<noteq> [] then getCategoryName (meta_categoryId m) apiKey ''US''
        else (\<lambda>w. (Inr None, w)))
       (\<lambda>categoryName. and_then
          (if apiKey \<noteq> [] \<and> or_null (meta_channelId m) \<noteq> None
           then fetchChannelBasics (meta_channelId m) apiKey
           else (\<lambda>w. (Inr None, w)))
          (\<lambda>channelExtra w5. (Inr (categoryName, channelExtra), w5)))
       w"

definition store_stage ::
  "string \<Rightarrow> string option \<Rightarrow> string \<Rightarrow> meta \<Rightarrow> string option \<Rightarrow> channel_basics option
     \<Rightarrow> world \<Rightarrow> world" where
  "store_stage videoId url profile m categoryName channelExtra w5 =
     (let (now, w6) = date_now w5;
          e = build_entry videoId url profile m categoryName channelExtra now;
          w7 = setLogEntry e 5000 w6;
          w8 = markLogged profile videoId w7
      in emit (Notify e) w8)"

definition fetch_stage :: "string \<Rightarrow> string \<Rightarrow> world \<Rightarrow> (error + meta) \<times> world" where
  "fetch_stage videoId apiKey w =
     (if apiKey \<noteq> [] then fetchVideoMetadataRich videoId apiKey 3 w
      else (Inr (fallback_meta videoId), w))"

text \<open>More concrete states and an API item for the examples.\<close>

definition sample_video :: video_resource where
  "sample_video =
     \<lparr> v_id = Some ''abc'', snippet_title = Some ''Song'', snippet_description = None,
       snippet_publishedAt = None, snippet_channelId = Some ''UC1'',
       snippet_channelTitle = Some ''Band'', snippet_tags = None,
       snippet_categoryId = Some ''10'', snippet_liveBroadcastContent = None,
       contentDetails_duration = Some ''PT3M20S'', contentDetails_caption = None,
       status_madeForKids = None \<rparr>"

definition keyed_world :: world where
  "keyed_world = sample_world\<lparr>sync_apiKey := Some ''KEY''\<rparr>"

definition marked_world :: world where
  "marked_world = sample_world\<lparr>lastLogged := [''Child:abc'' \<mapsto> 0]\<rparr>"

definition flaky_world :: world where
  "flaky_world =
     keyed_world\<lparr>videos_api := (\<lambda>n. if n < 3 then NotOk 503 else Ok (Some sample_video))\<rparr>"

definition broken_enrichment_world :: world where
  "broken_enrichment_world =
     keyed_world\<lparr>videos_api := (\<lambda>n. Ok (Some sample_video)),
                 categories_api := (\<lambda>n. Rejected)\<rparr>"

section \<open>Properties\<close>

subsection \<open>Substrings\<close>

lemma includes_str_iff: "includes_str s p = contains s p"
proof (induction s)
  case Nil
  show ?case by (auto simp: contains_def)
next
  case (Cons c cs)
  show ?case
  proof
    assume "includes_str (c # cs) p"
    then consider "take (length p) (c # cs) = p" | "includes_str cs p" by auto
    then show "contains (c # cs) p"
    proof cases
      case 1
      then have "c # cs = [] @ p @ drop (length p) (c # cs)"
        by (metis append_Nil append_take_drop_id)
      then show ?thesis unfolding contains_def by blast
    next
      case 2
      with Cons obtain a b where "cs = a @ p @ b" unfolding contains_def by blast
      then have "c # cs = (c # a) @ p @ b" by simp
      then show ?thesis unfolding contains_def by blast
    qed
  next
    assume "contains (c # cs) p"
    then obtain a b where ab: "c # cs = a @ p @ b" unfolding contains_def by blast
    show "includes_str (c # cs) p"
    proof (cases a)
      case Nil
      with ab have "take (length p) (c # cs) = p" by simp
      then show ?thesis by simp
    next
      case (Cons x a')
      with ab have "cs = a' @ p @ b" by simp
      then have "contains cs p" unfolding contains_def by blast
      with Cons.IH show ?thesis by simp
    qed
  qed
qed

subsection \<open>Duration parsing\<close>























lemmas duration_eval =
  parseISODurationToSeconds_def groups_after_PT_def opt_group_def is_digit_def
  capture_or_zero_def parseInt10_def decimal_value_def digit_val_def times_double_def
  plus_double_def to_double_def bit_length.simps Let_def




subsection \<open>Shorts inference\<close>

text \<open>
  C7. A url that contains \<^verbatim>\<open>/shorts/\<close> gives true whatever the duration. A url that does
  not contain it gives true exactly when the duration is a number of at most 60 seconds
  (60 gives true, 90 gives false, an infinite duration gives false) and false when the
  duration is \<^verbatim>\<open>null\<close>. The same holds when the url is absent.
\<close>

theorem shorts_inference:
  "(contains u ''/shorts/'' \<longrightarrow> inferIsShorts (Some u) d)
   \<and> (\<not> contains u ''/shorts/'' \<longrightarrow>
        inferIsShorts (Some u) (Some (Num n)) = (n \<le> 60)
        \<and> inferIsShorts (Some u) (Some (Num 60)) \<and> \<not> inferIsShorts (Some u) (Some (Num 90))
        \<and> \<not> inferIsShorts (Some u) (Some Infinity)
        \<and> \<not> inferIsShorts (Some u) None)
   \<and> inferIsShorts None d
       = (case d of None \<Rightarrow> False | Some (Num k) \<Rightarrow> k \<le> 60 | Some Infinity \<Rightarrow> False)"
  by (simp add: inferIsShorts_def includes_str_iff number_le_def
      split: option.splits number.splits)

theorem shorts_inference_witness:
  "contains ''https://www.youtube.com/shorts/abcdef'' ''/shorts/''
   \<and> inferIsShorts (Some ''https://www.youtube.com/shorts/abcdef'') (Some (Num 600))
   \<and> \<not> contains ''https://www.youtube.com/watch?v=abcdef'' ''/shorts/''
   \<and> inferIsShorts (Some ''https://www.youtube.com/watch?v=abcdef'') (Some (Num 60))
   \<and> \<not> inferIsShorts (Some ''https://www.youtube.com/watch?v=abcdef'') (Some (Num 90))
   \<and> \<not> inferIsShorts (Some ''https://www.youtube.com/watch?v=abcdef'') (Some Infinity)
   \<and> \<not> inferIsShorts (Some ''https://www.youtube.com/watch?v=abcdef'') None"
proof -
  have a: "contains ''https://www.youtube.com/shorts/abcdef'' ''/shorts/''"
    by (simp add: includes_str_iff [symmetric])
  have b: "\<not> contains ''https://www.youtube.com/watch?v=abcdef'' ''/shorts/''"
    by (simp add: includes_str_iff [symmetric])
  show ?thesis
    using a b
      shorts_inference [of "''https://www.youtube.com/shorts/abcdef''" "Some (Num 600)" 0]
      shorts_inference [of "''https://www.youtube.com/watch?v=abcdef''" None 0]
    by simp
qed

subsection \<open>Clearing the log\<close>

text \<open>
  C9. From every state of the store, once the clear handler has run (the user having
  confirmed), the log \<open>watchLog\<close> and the history of generated playlist links
  \<open>playlistLinks\<close> are both the empty array.
\<close>

theorem clear_resets_log_and_links:
  "as_array (watchLog (clear_click True w)) = []
   \<and> as_array (playlistLinks (clear_click True w)) = []
   \<and> watchLog (clear_click True w) = Arr [] \<and> playlistLinks (clear_click True w) = Arr []"
  by (simp add: clear_click_def as_array_def)

subsection \<open>Dedup guard\<close>

lemma markLogged_lastLogged:
  "lastLogged (markLogged profile videoId w)
     = (lastLogged w)(dedup_key profile videoId \<mapsto> clock w 0)"
  by (simp add: markLogged_def date_now_def emit_def Let_def)

text \<open>
  C10. \<open>markLogged profile videoId\<close> stores the current time under the key
  \<^verbatim>\<open>profile:videoId\<close> and leaves the time stamp of every other key of the dedup table as
  it was.
\<close>

theorem markLogged_frame:
  "lastLogged (markLogged profile videoId w) (dedup_key profile videoId) = Some (clock w 0)
   \<and> (\<forall>k. k \<noteq> dedup_key profile videoId \<longrightarrow>
          lastLogged (markLogged profile videoId w) k = lastLogged w k)"
  by (simp add: markLogged_lastLogged)

theorem markLogged_frame_witness:
  "lastLogged (markLogged ''Child'' ''abc'' (sample_world\<lparr>lastLogged := [''Teen:xyz'' \<mapsto> 5]\<rparr>))
      ''Child:abc'' = Some 0
   \<and> ''Teen:xyz'' \<noteq> dedup_key ''Child'' ''abc''
   \<and> lastLogged (markLogged ''Child'' ''abc'' (sample_world\<lparr>lastLogged := [''Teen:xyz'' \<mapsto> 5]\<rparr>))
      ''Teen:xyz'' = Some 5"
  using markLogged_frame [of "''Child''" "''abc''" "sample_world\<lparr>lastLogged := [''Teen:xyz'' \<mapsto> 5]\<rparr>"]
  by (simp add: dedup_key_def sample_world_def)


text \<open>
  C6. \<open>recentlyLogged p x ttl\<close> is true exactly when a record exists under the key
  \<^verbatim>\<open>p:x\<close> and the minutes elapsed since its time stamp are fewer than \<open>ttl\<close>; with no
  record it is false. After \<open>markLogged p x\<close> at time \<open>T\<close> the record holds \<open>T\<close>, and for
  a ttl of \<open>minutes\<close> minutes a check at \<open>T + ttl - eps\<close> is true and a check at
  \<open>T + ttl + eps\<close> is false, for every \<open>eps > 0\<close> (in milliseconds).
\<close>

theorem suppression_window:
  "fst (recentlyLogged p x ttl w)
     = (\<exists>t. lastLogged w (dedup_key p x) = Some t \<and> of_int (clock w 0 - t) / 60000 < ttl)
   \<and> (lastLogged w (dedup_key p x) = None \<longrightarrow> \<not> fst (recentlyLogged p x ttl w))
   \<and> lastLogged (markLogged p x w) (dedup_key p x) = Some (clock w 0)
   \<and> (\<forall>eps. 0 < eps \<and> clock (markLogged p x w) 0 = clock w 0 + minutes * 60000 - eps \<longrightarrow>
         fst (recentlyLogged p x (of_int minutes) (markLogged p x w)))
   \<and> (\<forall>eps. 0 < eps \<and> clock (markLogged p x w) 0 = clock w 0 + minutes * 60000 + eps \<longrightarrow>
         \<not> fst (recentlyLogged p x (of_int minutes) (markLogged p x w)))"
proof -
  have iff: "fst (recentlyLogged p x ttl w1)
     = (\<exists>t. lastLogged w1 (dedup_key p x) = Some t \<and> of_int (clock w1 0 - t) / 60000 < ttl)"
    for w1 ttl
    by (simp add: recentlyLogged_def date_now_def emit_def Let_def split: option.splits)
  have age: "((of_int d :: rat) / 60000 < of_int m) = (d < m * 60000)" for d m :: int
  proof -
    have "((of_int d :: rat) / 60000 < of_int m) = ((of_int d :: rat) < of_int (m * 60000))"
      by (simp add: divide_less_eq)
    then show ?thesis by (simp only: of_int_less_iff)
  qed
  show ?thesis
    by (simp add: iff age markLogged_lastLogged)
qed

theorem suppression_window_witness:
  "(0::int) < 1
   \<and> clock (markLogged ''Child'' ''abc'' (sample_world\<lparr>clock := (\<lambda>n. if n = 0 then 5 else 7200004)\<rparr>)) 0
       = clock (sample_world\<lparr>clock := (\<lambda>n. if n = 0 then 5 else 7200004)\<rparr>) 0 + 120 * 60000 - 1
   \<and> fst (recentlyLogged ''Child'' ''abc'' (of_int 120)
        (markLogged ''Child'' ''abc'' (sample_world\<lparr>clock := (\<lambda>n. if n = 0 then 5 else 7200004)\<rparr>)))
   \<and> clock (markLogged ''Child'' ''abc'' (sample_world\<lparr>clock := (\<lambda>n. if n = 0 then 5 else 7200006)\<rparr>)) 0
       = clock (sample_world\<lparr>clock := (\<lambda>n. if n = 0 then 5 else 7200006)\<rparr>) 0 + 120 * 60000 + 1
   \<and> \<not> fst (recentlyLogged ''Child'' ''abc'' (of_int 120)
        (markLogged ''Child'' ''abc'' (sample_world\<lparr>clock := (\<lambda>n. if n = 0 then 5 else 7200006)\<rparr>)))
   \<and> lastLogged sample_world (dedup_key ''Child'' ''abc'') = None
   \<and> \<not> fst (recentlyLogged ''Child'' ''abc'' 120 sample_world)"
proof -
  let ?wa = "sample_world\<lparr>clock := (\<lambda>n. if n = 0 then 5 else 7200004)\<rparr>"
  let ?wb = "sample_world\<lparr>clock := (\<lambda>n. if n = 0 then 5 else 7200006)\<rparr>"
  have ha: "clock (markLogged ''Child'' ''abc'' ?wa) 0 = clock ?wa 0 + 120 * 60000 - 1"
    by (simp add: markLogged_def date_now_def emit_def Let_def)
  have hb: "clock (markLogged ''Child'' ''abc'' ?wb) 0 = clock ?wb 0 + 120 * 60000 + 1"
    by (simp add: markLogged_def date_now_def emit_def Let_def)
  have hc: "lastLogged sample_world (dedup_key ''Child'' ''abc'') = None"
    by (simp add: sample_world_def)
  have a: "fst (recentlyLogged ''Child'' ''abc'' (of_int 120) (markLogged ''Child'' ''abc'' ?wa))"
    using ha suppression_window [of "''Child''" "''abc''" 120 ?wa 120,
        THEN conjunct2, THEN conjunct2, THEN conjunct2, THEN conjunct1, THEN spec, of 1]
    by simp
  have b: "\<not> fst (recentlyLogged ''Child'' ''abc'' (of_int 120) (markLogged ''Child'' ''abc'' ?wb))"
    using hb suppression_window [of "''Child''" "''abc''" 120 ?wb 120,
        THEN conjunct2, THEN conjunct2, THEN conjunct2, THEN conjunct2, THEN spec, of 1]
    by simp
  have c: "\<not> fst (recentlyLogged ''Child'' ''abc'' 120 sample_world)"
    using hc suppression_window [of "''Child''" "''abc''" 120 sample_world 120,
        THEN conjunct2, THEN conjunct1]
    by simp
  show ?thesis using ha hb hc a b c by simp
qed

subsection \<open>Log store\<close>

lemma setLogEntry_log:
  "as_array (watchLog (setLogEntry e maxEntries w))
     = drop (length (as_array (watchLog w)) + 1 - maxEntries) (as_array (watchLog w) @ [e])"
  by (simp add: setLogEntry_def emit_def splice0_def as_array_def Let_def)

lemma appends_snoc: "appends (es @ [e]) maxEntries w = setLogEntry e maxEntries (appends es maxEntries w)"
  by (simp add: appends_def)

lemma drop_drop_append:
  assumes "b \<le> length xs"
  shows "drop a (drop b xs @ ys) = drop (a + b) (xs @ ys)"
proof -
  have "drop b (xs @ ys) = drop b xs @ ys" using assms by simp
  then have "drop a (drop b xs @ ys) = drop a (drop b (xs @ ys))" by simp
  then show ?thesis by (simp only: drop_drop)
qed

lemma appends_log:
  "es \<noteq> [] \<Longrightarrow>
   as_array (watchLog (appends es maxEntries w))
     = drop (length (as_array (watchLog w)) + length es - maxEntries) (as_array (watchLog w) @ es)"
proof (induction es rule: rev_induct)
  case Nil
  then show ?case by simp
next
  case (snoc e es)
  let ?L = "as_array (watchLog w)"
  show ?case
  proof (cases "es = []")
    case True
    then show ?thesis by (simp add: appends_def setLogEntry_log)
  next
    case False
    let ?d = "length ?L + length es - maxEntries"
    have ih: "as_array (watchLog (appends es maxEntries w)) = drop ?d (?L @ es)"
      using snoc.IH False by simp
    have le: "?d \<le> length (?L @ es)" by simp
    have "as_array (watchLog (appends (es @ [e]) maxEntries w))
            = drop (length (drop ?d (?L @ es)) + 1 - maxEntries) (drop ?d (?L @ es) @ [e])"
      by (simp only: appends_snoc setLogEntry_log ih)
    also have "\<dots> = drop (length (drop ?d (?L @ es)) + 1 - maxEntries + ?d) ((?L @ es) @ [e])"
      using le by (rule drop_drop_append)
    also have "length (drop ?d (?L @ es)) + 1 - maxEntries + ?d
                 = length ?L + length (es @ [e]) - maxEntries"
      by (simp add: algebra_simps)
    finally show ?thesis by simp
  qed
qed

text \<open>
  C2. From every starting log and for every capacity (5000 is the default), the log
  after an append is no longer than the capacity; the entries removed by an append are a
  prefix of the log, the oldest ones, as many as the surplus, and the entries that stay
  keep their order. After every step of a sequence of appends the log is within the
  capacity and is the newest part of the starting log followed by the appended entries.
\<close>

theorem log_capacity_fifo:
  "length (as_array (watchLog (setLogEntry e maxEntries w))) \<le> maxEntries
   \<and> (\<exists>evicted.
         as_array (watchLog w) @ [e] = evicted @ as_array (watchLog (setLogEntry e maxEntries w))
         \<and> length evicted = length (as_array (watchLog w)) + 1 - maxEntries)
   \<and> (\<forall>n. 0 < n \<and> n \<le> length es \<longrightarrow>
         length (as_array (watchLog (appends (take n es) maxEntries w))) \<le> maxEntries
         \<and> as_array (watchLog (appends (take n es) maxEntries w))
             = drop (length (as_array (watchLog w) @ take n es) - maxEntries)
                 (as_array (watchLog w) @ take n es))"
proof (intro conjI allI impI)
  show "length (as_array (watchLog (setLogEntry e maxEntries w))) \<le> maxEntries"
    by (simp add: setLogEntry_log)
next
  let ?L = "as_array (watchLog w) @ [e]"
  let ?k = "length (as_array (watchLog w)) + 1 - maxEntries"
  have "?L = take ?k ?L @ as_array (watchLog (setLogEntry e maxEntries w))"
    by (simp only: setLogEntry_log append_take_drop_id)
  moreover have "length (take ?k ?L) = ?k" by simp
  ultimately show "\<exists>evicted.
      as_array (watchLog w) @ [e] = evicted @ as_array (watchLog (setLogEntry e maxEntries w))
      \<and> length evicted = ?k"
    by blast
next
  fix n assume n: "0 < n \<and> n \<le> length es"
  then have ne: "take n es \<noteq> []" by auto
  show "as_array (watchLog (appends (take n es) maxEntries w))
          = drop (length (as_array (watchLog w) @ take n es) - maxEntries)
              (as_array (watchLog w) @ take n es)"
    using appends_log [OF ne] by simp
  then show "length (as_array (watchLog (appends (take n es) maxEntries w))) \<le> maxEntries"
    by simp
qed

theorem log_capacity_fifo_witness:
  "(0::nat) < 3 \<and> (3::nat) \<le> length [sample_entry ''c'', sample_entry ''d'', sample_entry ''e'']
   \<and> as_array (watchLog (appends [sample_entry ''c'', sample_entry ''d'', sample_entry ''e''] 3
        (sample_world\<lparr>watchLog := Arr [sample_entry ''a'', sample_entry ''b'']\<rparr>)))
       = [sample_entry ''c'', sample_entry ''d'', sample_entry ''e'']"
  using log_capacity_fifo [of "sample_entry ''c''" 3
      "sample_world\<lparr>watchLog := Arr [sample_entry ''a'', sample_entry ''b'']\<rparr>"
      "[sample_entry ''c'', sample_entry ''d'', sample_entry ''e'']",
      THEN conjunct2, THEN conjunct2, THEN spec, of 3]
  by (simp add: as_array_def)

subsection \<open>The retry loop\<close>

lemma fetch_loop_char:
  "fetch_loop videoId apiKey maxRetries attempt w =
     (attempt_result (videos_api w (leading_failures (videos_api w) (maxRetries - attempt))),
      w\<lparr>videos_api := (\<lambda>n. videos_api w (n + Suc (leading_failures (videos_api w) (maxRetries - attempt)))),
        trace := trace w @ retry_events (FetchPrimary videoId apiKey) attempt
                   (leading_failures (videos_api w) (maxRetries - attempt))\<rparr>)"
proof (induction "maxRetries - attempt" arbitrary: attempt w)
  case 0
  then have ge: "attempt \<ge> maxRetries" by simp
  show ?case
    using ge
    by (subst fetch_loop.simps)
       (simp add: videos_list_def emit_def split: sum.splits)
next
  case (Suc b)
  then have lt: "\<not> attempt \<ge> maxRetries" and b: "b = maxRetries - (attempt + 1)"
    and d: "maxRetries - attempt = Suc b" and b': "maxRetries - Suc attempt = b" by simp_all
  let ?w1 = "sleep (300 * (attempt + 1))
               (emit (FetchPrimary videoId apiKey) (w\<lparr>videos_api := (\<lambda>n. videos_api w (Suc n))\<rparr>))"
  note ih = Suc.hyps(1) [OF b, of ?w1]
  show ?case
  proof (cases "attempt_result (videos_api w 0)")
    case (Inr m)
    then show ?thesis
      by (subst fetch_loop.simps) (simp add: d videos_list_def emit_def)
  next
    case (Inl e)
    have api: "videos_api ?w1 = (\<lambda>n. videos_api w (Suc n))"
      by (simp add: sleep_def emit_def)
    have tr: "trace ?w1 = trace w @ [FetchPrimary videoId apiKey, Backoff (300 * (attempt + 1))]"
      by (simp add: sleep_def emit_def)
    have "fetch_loop videoId apiKey maxRetries attempt w
            = fetch_loop videoId apiKey maxRetries (attempt + 1) ?w1"
      using Inl lt by (subst fetch_loop.simps) (simp add: videos_list_def)
    also note ih
    finally show ?thesis
      using Inl b' by (simp add: d sleep_def emit_def)
  qed
qed

lemma leading_failures_le: "leading_failures f b \<le> b"
  by (induction b arbitrary: f) auto

lemma leading_failures_all:
  "(\<forall>i \<le> b. isl (attempt_result (f i))) \<Longrightarrow> leading_failures f b = b"
proof (induction b arbitrary: f)
  case 0
  show ?case by simp
next
  case (Suc b)
  have "\<forall>i \<le> b. isl (attempt_result (f (Suc i)))" using Suc.prems by auto
  then have "leading_failures (\<lambda>n. f (Suc n)) b = b" by (rule Suc.IH)
  moreover have "isl (attempt_result (f 0))" using Suc.prems by blast
  ultimately show ?case by simp
qed

lemma leading_failures_first:
  "i \<le> b \<Longrightarrow> \<not> isl (attempt_result (f i)) \<Longrightarrow> \<forall>j < i. isl (attempt_result (f j))
     \<Longrightarrow> leading_failures f b = i"
proof (induction b arbitrary: f i)
  case 0
  then show ?case by simp
next
  case (Suc b)
  show ?case
  proof (cases i)
    case 0
    with Suc.prems show ?thesis by simp
  next
    case (Suc i')
    have "leading_failures (\<lambda>n. f (Suc n)) b = i'"
      using Suc.prems Suc by (intro Suc.IH) auto
    moreover have "isl (attempt_result (f 0))" using Suc.prems Suc by blast
    ultimately show ?thesis using Suc by simp
  qed
qed


lemma retry_events_requests:
  "primary_requests (retry_events (FetchPrimary v a) attempt k) = k + 1"
  by (induction k arbitrary: attempt) (simp_all add: primary_requests_def)

lemma primary_requests_append:
  "primary_requests (xs @ ys) = primary_requests xs + primary_requests ys"
  by (simp add: primary_requests_def)

lemma enrichment_not_attempt:
  assumes "\<forall>ev \<in> set evs. is_enrichment ev"
  shows "(\<forall>ev \<in> set evs. \<not> is_attempt_event ev) \<and> primary_requests evs = 0"
  using assms
  by (induction evs)
     (auto simp: is_enrichment_def is_attempt_event_def primary_requests_def split: event.splits)

lemma retry_events_3:
  "retry_events rq 0 3 = [rq, Backoff 300, rq, Backoff 600, rq, Backoff 900, rq]"
  by (simp add: numeral_3_eq_3)

subsection \<open>The stages of an intake\<close>

lemma getConfig_eq:
  "getConfig w = ((configured_apiKey w, configured_profile w), emit ConfigRead w)"
  by (simp add: getConfig_def configured_apiKey_def configured_profile_def)

lemma dedup_stage:
  assumes "recentlyLogged p v ttl w1 = (b, w2)"
  shows "trace w2 = trace w1 @ [DedupCheck (dedup_key p v)]"
    and "same_storage w1 w2" and "same_network w1 w2"
    and "categoryNameCache w2 = categoryNameCache w1"
  using assms
  by (auto simp: recentlyLogged_def date_now_def emit_def Let_def same_storage_def
      same_network_def split: option.splits)

lemma category_stage:
  assumes "getCategoryName c a r w3 = (res, w4)"
  shows "same_storage w3 w4"
    and "videos_api w4 = videos_api w3" and "channels_api w4 = channels_api w3"
    and "clock w4 = clock w3"
    and "\<exists>evs. trace w4 = trace w3 @ evs \<and> (\<forall>ev \<in> set evs. is_enrichment ev)"
    and "\<not> rejects (categories_api w3 0) \<Longrightarrow> \<exists>name. res = Inr name"
  using assms
  by (auto simp: getCategoryName_def categories_list_def emit_def Let_def same_storage_def
      rejects_def is_enrichment_def split: option.splits response.splits)

lemma channel_stage:
  assumes "fetchChannelBasics c a w4 = (res, w5)"
  shows "same_storage w4 w5"
    and "videos_api w5 = videos_api w4" and "categories_api w5 = categories_api w4"
    and "clock w5 = clock w4" and "categoryNameCache w5 = categoryNameCache w4"
    and "\<exists>evs. trace w5 = trace w4 @ evs \<and> (\<forall>ev \<in> set evs. is_enrichment ev)"
    and "\<not> rejects (channels_api w4 0) \<Longrightarrow> \<exists>extra. res = Inr extra"
  using assms
  by (auto simp: fetchChannelBasics_def channels_list_def emit_def Let_def same_storage_def
      rejects_def is_enrichment_def split: option.splits response.splits)

lemma logYouTubeWatch_stages:
  assumes "recentlyLogged (configured_profile w) videoId 120 (emit ConfigRead w) = (recent, w2)"
  shows "logYouTubeWatch videoId url w =
     (if recent then w2
      else case fetch_stage videoId (configured_apiKey w) w2 of
             (Inl e, w3) \<Rightarrow> emit (ReportError e) w3
           | (Inr m, w3) \<Rightarrow>
               (case enrich_stage (configured_apiKey w) m w3 of
                  (Inl e, w5) \<Rightarrow> emit (ReportError e) w5
                | (Inr (categoryName, channelExtra), w5) \<Rightarrow>
                    store_stage videoId url (configured_profile w) m categoryName channelExtra w5))"
  using assms
  by (simp add: logYouTubeWatch_def logYouTubeWatch_try_def getConfig_eq fetch_stage_def
      enrich_stage_def store_stage_def and_then_def Let_def
      split: prod.splits sum.splits)

lemma same_storage_refl: "same_storage w w"
  by (simp add: same_storage_def)

lemma same_storage_trans: "same_storage a b \<Longrightarrow> same_storage b c \<Longrightarrow> same_storage a c"
  by (simp add: same_storage_def)

lemma cache_kept_category:
  assumes "categoryNameCache w k0 = Some x"
  shows "categoryNameCache (snd (getCategoryName c a r w)) k0 = Some x"
  using assms
  by (auto simp: getCategoryName_def categories_list_def emit_def Let_def
      split: option.splits response.splits)

lemma enrich_stage_all:
  assumes "enrich_stage a m w3 = (res, w5)"
  shows "same_storage w3 w5 \<and> videos_api w5 = videos_api w3 \<and> clock w5 = clock w3
    \<and> (\<exists>evs. trace w5 = trace w3 @ evs \<and> (\<forall>ev \<in> set evs. is_enrichment ev))
    \<and> (\<not> rejects (categories_api w3 0) \<and> \<not> rejects (channels_api w3 0)
           \<longrightarrow> (\<exists>name extra. res = Inr (name, extra)))
    \<and> (a = [] \<longrightarrow> res = Inr (None, None) \<and> w5 = w3)
    \<and> (categoryNameCache w3 k0 = Some x \<longrightarrow> categoryNameCache w5 k0 = Some x)"
proof -
  obtain rc w4 where c: "(if a \<noteq> [] then getCategoryName (meta_categoryId m) a ''US''
        else (\<lambda>w. (Inr None, w))) w3 = (rc, w4)" by force
  have c1: "same_storage w3 w4" "videos_api w4 = videos_api w3"
    "channels_api w4 = channels_api w3" "clock w4 = clock w3"
    "\<exists>evs. trace w4 = trace w3 @ evs \<and> (\<forall>ev \<in> set evs. is_enrichment ev)"
    "\<not> rejects (categories_api w3 0) \<Longrightarrow> \<exists>name. rc = Inr name"
    "a = [] \<Longrightarrow> rc = Inr None \<and> w4 = w3"
    "categoryNameCache w3 k0 = Some x \<Longrightarrow> categoryNameCache w4 k0 = Some x"
    using c category_stage [of "meta_categoryId m" a "''US''" w3 rc w4]
      cache_kept_category [of w3 k0 x "meta_categoryId m" a "''US''"]
    by (auto simp: same_storage_refl split: if_splits)
  show ?thesis
  proof (cases rc)
    case (Inl e)
    then have "res = Inl e" "w5 = w4"
      using assms c by (simp_all add: enrich_stage_def and_then_def)
    then show ?thesis using c1 Inl by auto
  next
    case (Inr name)
    obtain rch where ch: "(if a \<noteq> [] \<and> or_null (meta_channelId m) \<noteq> None
           then fetchChannelBasics (meta_channelId m) a
           else (\<lambda>w. (Inr None, w))) w4 = (rch, w5)"
      and res: "res = (case rch of Inl e \<Rightarrow> Inl e | Inr extra \<Rightarrow> Inr (name, extra))"
      using assms c Inr
      by (auto simp: enrich_stage_def and_then_def split: prod.splits sum.splits)
    have c2: "same_storage w4 w5" "videos_api w5 = videos_api w4" "clock w5 = clock w4"
      "categoryNameCache w5 = categoryNameCache w4"
      "\<exists>evs. trace w5 = trace w4 @ evs \<and> (\<forall>ev \<in> set evs. is_enrichment ev)"
      "\<not> rejects (channels_api w4 0) \<Longrightarrow> \<exists>extra. rch = Inr extra"
      "a = [] \<Longrightarrow> rch = Inr None \<and> w5 = w4"
      using ch channel_stage [of "meta_channelId m" a w4 rch w5]
      by (auto simp: same_storage_refl split: if_splits)
    have s: "same_storage w3 w5" using c1(1) c2(1) by (rule same_storage_trans)
    have t: "\<exists>evs. trace w5 = trace w3 @ evs \<and> (\<forall>ev \<in> set evs. is_enrichment ev)"
    proof -
      from c1(5) obtain e1 where e1: "trace w4 = trace w3 @ e1" "\<forall>ev \<in> set e1. is_enrichment ev"
        by blast
      from c2(5) obtain e2 where e2: "trace w5 = trace w4 @ e2" "\<forall>ev \<in> set e2. is_enrichment ev"
        by blast
      have "trace w5 = trace w3 @ (e1 @ e2)" using e1 e2 by simp
      moreover have "\<forall>ev \<in> set (e1 @ e2). is_enrichment ev" using e1 e2 by auto
      ultimately show ?thesis by blast
    qed
    have r: "\<exists>name extra. res = Inr (name, extra)"
      if "\<not> rejects (categories_api w3 0)" "\<not> rejects (channels_api w3 0)"
      using that c1(3) c2(6) res by auto
    have f: "res = Inr (None, None) \<and> w5 = w3" if "a = []"
      using that c1(7) c2(7) res Inr by auto
    have k: "categoryNameCache w5 k0 = Some x" if "categoryNameCache w3 k0 = Some x"
      using that c1(8) c2(4) by simp
    show ?thesis using s t r f k c1(2,4) c2(2,3) by simp
  qed
qed

lemma enrich_stage_props:
  assumes "enrich_stage a m w3 = (res, w5)"
  shows "same_storage w3 w5"
    and "videos_api w5 = videos_api w3" and "clock w5 = clock w3"
    and "\<exists>evs. trace w5 = trace w3 @ evs \<and> (\<forall>ev \<in> set evs. is_enrichment ev)"
    and "\<not> rejects (categories_api w3 0) \<Longrightarrow> \<not> rejects (channels_api w3 0)
           \<Longrightarrow> \<exists>name extra. res = Inr (name, extra)"
    and "a = [] \<Longrightarrow> res = Inr (None, None) \<and> w5 = w3"
    and "categoryNameCache w3 k0 = Some x \<Longrightarrow> categoryNameCache w5 k0 = Some x"
  using enrich_stage_all [OF assms, of k0 x] by simp_all

lemma store_stage_props:
  "trace (store_stage v u p m name extra w5) =
     trace w5 @ [AppendLog (build_entry v u p m name extra (clock w5 0)),
                 MarkLogged (dedup_key p v),
                 Notify (build_entry v u p m name extra (clock w5 0))]"
  "watchLog (store_stage v u p m name extra w5) =
     Arr (drop (length (as_array (watchLog w5)) + 1 - 5000)
            (as_array (watchLog w5) @ [build_entry v u p m name extra (clock w5 0)]))"
  "lastLogged (store_stage v u p m name extra w5) = (lastLogged w5)(dedup_key p v \<mapsto> clock w5 1)"
  "same_network w5 (store_stage v u p m name extra w5)"
  "categoryNameCache (store_stage v u p m name extra w5) = categoryNameCache w5"
  "playlistLinks (store_stage v u p m name extra w5) = playlistLinks w5"
  "sync_apiKey (store_stage v u p m name extra w5) = sync_apiKey w5"
  "sync_profile (store_stage v u p m name extra w5) = sync_profile w5"
  by (simp_all add: store_stage_def date_now_def setLogEntry_def markLogged_def
      emit_def splice0_def Let_def same_network_def)

lemma fetch_stage_props:
  assumes "fetch_stage v a w2 = (r, w3)"
  shows "same_storage w2 w3" and "categories_api w3 = categories_api w2"
    and "channels_api w3 = channels_api w2" and "clock w3 = clock w2"
    and "categoryNameCache w3 = categoryNameCache w2"
    and "a = [] \<Longrightarrow> r = Inr (fallback_meta v) \<and> w3 = w2"
    and "a \<noteq> [] \<Longrightarrow> r = attempt_result (videos_api w2 (leading_failures (videos_api w2) 3))
           \<and> trace w3 = trace w2 @ retry_events (FetchPrimary v a) 0 (leading_failures (videos_api w2) 3)"
  using assms
  by (auto simp: fetch_stage_def fetchVideoMetadataRich_def fetch_loop_char same_storage_def
      split: if_splits)

lemma fresh_paths:
  assumes "recentlyLogged (configured_profile w) v 120 (emit ConfigRead w) = (False, w2)"
  shows "(\<exists>e w3. fetch_stage v (configured_apiKey w) w2 = (Inl e, w3)
            \<and> logYouTubeWatch v u w = emit (ReportError e) w3)
       \<or> (\<exists>m w3 e w5. fetch_stage v (configured_apiKey w) w2 = (Inr m, w3)
            \<and> enrich_stage (configured_apiKey w) m w3 = (Inl e, w5)
            \<and> logYouTubeWatch v u w = emit (ReportError e) w5)
       \<or> (\<exists>m w3 name extra w5. fetch_stage v (configured_apiKey w) w2 = (Inr m, w3)
            \<and> enrich_stage (configured_apiKey w) m w3 = (Inr (name, extra), w5)
            \<and> logYouTubeWatch v u w
                = store_stage v u (configured_profile w) m name extra w5)"
proof -
  obtain r w3 where f: "fetch_stage v (configured_apiKey w) w2 = (r, w3)" by force
  show ?thesis
  proof (cases r)
    case (Inl e)
    then show ?thesis using f by (simp add: logYouTubeWatch_stages [OF assms])
  next
    case (Inr m)
    obtain r5 w5 where en: "enrich_stage (configured_apiKey w) m w3 = (r5, w5)" by force
    show ?thesis
    proof (cases r5)
      case (Inl e)
      then show ?thesis using f Inr en by (simp add: logYouTubeWatch_stages [OF assms])
    next
      case (Inr ne)
      obtain name extra where "ne = (name, extra)" by force
      then show ?thesis using f \<open>r = Inr m\<close> en Inr
        by (simp add: logYouTubeWatch_stages [OF assms])
    qed
  qed
qed

lemma check_stage:
  assumes "recentlyLogged (configured_profile w) v 120 (emit ConfigRead w) = (recent, w2)"
  shows "trace w2 = trace w @ [ConfigRead, DedupCheck (dedup_key (configured_profile w) v)]"
    and "same_storage w w2" and "same_network w w2"
    and "categoryNameCache w2 = categoryNameCache w"
    and "suppressed v w = recent"
    and "logYouTubeWatch_try v u w = (Inr (), w2) \<or> \<not> recent"
  using dedup_stage [OF assms] assms
  by (auto simp: emit_def same_storage_def same_network_def suppressed_def getConfig_eq
      logYouTubeWatch_try_def)

lemma intake_after_fetch:
  assumes rl: "recentlyLogged (configured_profile w) v 120 (emit ConfigRead w) = (False, w2)"
    and f: "fetch_stage v (configured_apiKey w) w2 = (r, w3)"
  shows "\<exists>rest. trace (logYouTubeWatch v u w) = trace w3 @ rest
           \<and> (\<forall>ev \<in> set rest. \<not> is_attempt_event ev) \<and> primary_requests rest = 0"
proof (cases r)
  case (Inl e)
  then have "logYouTubeWatch v u w = emit (ReportError e) w3"
    using f by (simp add: logYouTubeWatch_stages [OF rl])
  then have "trace (logYouTubeWatch v u w) = trace w3 @ [ReportError e]"
    by (simp add: emit_def)
  then show ?thesis
    by (intro exI [of _ "[ReportError e]"]) (simp add: is_attempt_event_def primary_requests_def)
next
  case (Inr m)
  obtain r5 w5 where en: "enrich_stage (configured_apiKey w) m w3 = (r5, w5)" by force
  from enrich_stage_props(4) [OF en] obtain evs
    where evs: "trace w5 = trace w3 @ evs" "\<forall>ev \<in> set evs. is_enrichment ev" by blast
  note na = enrichment_not_attempt [OF evs(2)]
  show ?thesis
  proof (cases r5)
    case (Inl e)
    then have "logYouTubeWatch v u w = emit (ReportError e) w5"
      using f Inr en by (simp add: logYouTubeWatch_stages [OF rl])
    then have "trace (logYouTubeWatch v u w) = trace w3 @ (evs @ [ReportError e])"
      using evs by (simp add: emit_def)
    moreover have "(\<forall>ev \<in> set (evs @ [ReportError e]). \<not> is_attempt_event ev)
        \<and> primary_requests (evs @ [ReportError e]) = 0"
      using na by (simp add: is_attempt_event_def primary_requests_def)
    ultimately show ?thesis by blast
  next
    case (Inr ne)
    obtain name extra where ne: "ne = (name, extra)" by force
    let ?e = "build_entry v u (configured_profile w) m name extra (clock w5 0)"
    let ?tail = "[AppendLog ?e, MarkLogged (dedup_key (configured_profile w) v), Notify ?e]"
    have "logYouTubeWatch v u w = store_stage v u (configured_profile w) m name extra w5"
      using f \<open>r = Inr m\<close> en Inr ne by (simp add: logYouTubeWatch_stages [OF rl])
    then have "trace (logYouTubeWatch v u w) = trace w3 @ (evs @ ?tail)"
      using evs by (simp add: store_stage_props(1))
    moreover have "(\<forall>ev \<in> set (evs @ ?tail). \<not> is_attempt_event ev)
        \<and> primary_requests (evs @ ?tail) = 0"
      using na by (simp add: is_attempt_event_def primary_requests_def)
    ultimately show ?thesis by blast
  qed
qed

lemma cache_kept_intake:
  assumes "categoryNameCache w k0 = Some x"
  shows "categoryNameCache (logYouTubeWatch v u w) k0 = Some x"
proof -
  obtain recent w2
    where rl: "recentlyLogged (configured_profile w) v 120 (emit ConfigRead w) = (recent, w2)"
    by force
  note cs = check_stage [OF rl]
  have c2: "categoryNameCache w2 k0 = Some x" using cs(4) assms by simp
  show ?thesis
  proof (cases recent)
    case True
    then show ?thesis using c2 by (simp add: logYouTubeWatch_stages [OF rl])
  next
    case False
    then have rl': "recentlyLogged (configured_profile w) v 120 (emit ConfigRead w) = (False, w2)"
      using rl by simp
    show ?thesis
      using fresh_paths [OF rl', of u]
    proof (elim disjE exE conjE)
      fix e w3
      assume f: "fetch_stage v (configured_apiKey w) w2 = (Inl e, w3)"
        and l: "logYouTubeWatch v u w = emit (ReportError e) w3"
      show ?thesis using fetch_stage_props(5) [OF f] c2 by (simp add: l emit_def)
    next
      fix m w3 e w5
      assume f: "fetch_stage v (configured_apiKey w) w2 = (Inr m, w3)"
        and en: "enrich_stage (configured_apiKey w) m w3 = (Inl e, w5)"
        and l: "logYouTubeWatch v u w = emit (ReportError e) w5"
      have "categoryNameCache w3 k0 = Some x" using fetch_stage_props(5) [OF f] c2 by simp
      then have "categoryNameCache w5 k0 = Some x" by (rule enrich_stage_props(7) [OF en])
      then show ?thesis by (simp add: l emit_def)
    next
      fix m w3 name extra w5
      assume f: "fetch_stage v (configured_apiKey w) w2 = (Inr m, w3)"
        and en: "enrich_stage (configured_apiKey w) m w3 = (Inr (name, extra), w5)"
        and l: "logYouTubeWatch v u w = store_stage v u (configured_profile w) m name extra w5"
      have "categoryNameCache w3 k0 = Some x" using fetch_stage_props(5) [OF f] c2 by simp
      then have "categoryNameCache w5 k0 = Some x" by (rule enrich_stage_props(7) [OF en])
      then show ?thesis by (simp add: l store_stage_props(5))
    qed
  qed
qed

lemmas eval_defs =
  logYouTubeWatch_def logYouTubeWatch_try_def and_then_def getConfig_def recentlyLogged_def
  dedup_key_def date_now_def emit_def fetchVideoMetadataRich_def fetch_loop_char
  attempt_result_def to_meta_def or_null_def getCategoryName_def categories_list_def
  fetchChannelBasics_def channels_list_def setLogEntry_def markLogged_def splice0_def
  as_array_def Let_def numeral_3_eq_3
  sample_world_def keyed_world_def marked_world_def flaky_world_def
  broken_enrichment_world_def sample_video_def

subsection \<open>Order of the config read and the dedup check\<close>

text \<open>
  C5, as the code has it. Every intake reads the configuration first and checks the
  dedup table second, under the key built from the profile it has just read; these are
  the first two events of every intake. A suppressed intake ends there: it makes no
  request, appends nothing, marks nothing, notifies nobody, and leaves the stores, the
  network and the category cache as they were.
\<close>

theorem config_read_precedes_dedup_check:
  "(\<exists>rest. trace (logYouTubeWatch v u w)
        = trace w @ ConfigRead # DedupCheck (dedup_key (configured_profile w) v) # rest)
   \<and> (suppressed v w \<longrightarrow>
        trace (logYouTubeWatch v u w)
          = trace w @ [ConfigRead, DedupCheck (dedup_key (configured_profile w) v)]
        \<and> same_storage w (logYouTubeWatch v u w)
        \<and> same_network w (logYouTubeWatch v u w)
        \<and> categoryNameCache (logYouTubeWatch v u w) = categoryNameCache w)"
proof -
  let ?key = "dedup_key (configured_profile w) v"
  obtain recent w2
    where rl: "recentlyLogged (configured_profile w) v 120 (emit ConfigRead w) = (recent, w2)"
    by force
  note cs = check_stage [OF rl]
  show ?thesis
  proof (cases recent)
    case True
    then have "logYouTubeWatch v u w = w2"
      by (simp add: logYouTubeWatch_stages [OF rl])
    then show ?thesis using cs True by simp
  next
    case False
    then have rl': "recentlyLogged (configured_profile w) v 120 (emit ConfigRead w) = (False, w2)"
      using rl by simp
    have "\<exists>rest. trace (logYouTubeWatch v u w) = trace w2 @ rest"
      using fresh_paths [OF rl', of u]
    proof (elim disjE exE conjE)
      fix e w3
      assume f: "fetch_stage v (configured_apiKey w) w2 = (Inl e, w3)"
        and l: "logYouTubeWatch v u w = emit (ReportError e) w3"
      have "\<exists>evs. trace w3 = trace w2 @ evs"
        using fetch_stage_props(6,7) [OF f] by (cases "configured_apiKey w = []") auto
      then show ?thesis using l by (auto simp: emit_def)
    next
      fix m w3 e w5
      assume f: "fetch_stage v (configured_apiKey w) w2 = (Inr m, w3)"
        and en: "enrich_stage (configured_apiKey w) m w3 = (Inl e, w5)"
        and l: "logYouTubeWatch v u w = emit (ReportError e) w5"
      have "\<exists>evs. trace w3 = trace w2 @ evs"
        using fetch_stage_props(6,7) [OF f] by (cases "configured_apiKey w = []") auto
      moreover have "\<exists>evs. trace w5 = trace w3 @ evs"
        using enrich_stage_props(4) [OF en] by blast
      ultimately show ?thesis using l by (auto simp: emit_def)
    next
      fix m w3 name extra w5
      assume f: "fetch_stage v (configured_apiKey w) w2 = (Inr m, w3)"
        and en: "enrich_stage (configured_apiKey w) m w3 = (Inr (name, extra), w5)"
        and l: "logYouTubeWatch v u w = store_stage v u (configured_profile w) m name extra w5"
      have "\<exists>evs. trace w3 = trace w2 @ evs"
        using fetch_stage_props(6,7) [OF f] by (cases "configured_apiKey w = []") auto
      moreover have "\<exists>evs. trace w5 = trace w3 @ evs"
        using enrich_stage_props(4) [OF en] by blast
      ultimately show ?thesis using l by (auto simp: store_stage_props(1))
    qed
    then show ?thesis using cs False by auto
  qed
qed

theorem config_read_precedes_dedup_check_witness:
  "suppressed ''abc'' marked_world
   \<and> trace (logYouTubeWatch ''abc'' None marked_world)
       = trace marked_world @ [ConfigRead, DedupCheck (dedup_key (configured_profile marked_world) ''abc'')]
   \<and> same_storage marked_world (logYouTubeWatch ''abc'' None marked_world)"
proof -
  have s: "suppressed ''abc'' marked_world"
    by (simp add: suppressed_def configured_profile_def eval_defs)
  show ?thesis
    using s config_read_precedes_dedup_check [of "''abc''" None marked_world]
    by simp
qed

text \<open>
  C5, as the claim states it, fails: in a suppressed intake the configuration is read,
  and it is read before the dedup check.
\<close>

theorem config_read_precedes_dedup_check_counterexample:
  "suppressed ''abc'' marked_world
   \<and> trace (logYouTubeWatch ''abc'' None marked_world) = [ConfigRead, DedupCheck ''Child:abc'']"
  by (simp add: suppressed_def configured_profile_def eval_defs)

subsection \<open>The fallback path\<close>

text \<open>
  C8. An intake with no API key configured that the dedup guard lets through makes no
  request of any kind. Its events are the config read, the dedup check, the append, the
  mark and the notification. The entry has no title, no description and no duration,
  its Shorts flag is decided by the url alone, it is appended to the log, and the dedup
  key is marked.
\<close>

theorem fallback_entry:
  assumes nokey: "configured_apiKey w = []" and fresh: "\<not> suppressed v w"
  shows "\<exists>e t. trace (logYouTubeWatch v u w)
             = trace w @ [ConfigRead, DedupCheck (dedup_key (configured_profile w) v),
                          AppendLog e, MarkLogged (dedup_key (configured_profile w) v), Notify e]
     \<and> entry_videoId e = v \<and> entry_url e = u \<and> entry_profile e = configured_profile w
     \<and> entry_title e = None \<and> entry_description e = None \<and> entry_durationSeconds e = None
     \<and> entry_isShorts e = (\<exists>s. u = Some s \<and> contains s ''/shorts/'')
     \<and> entry_categoryName e = None \<and> entry_channelExtra e = None
     \<and> watchLog (logYouTubeWatch v u w)
         = Arr (drop (length (as_array (watchLog w)) + 1 - 5000) (as_array (watchLog w) @ [e]))
     \<and> lastLogged (logYouTubeWatch v u w)
         = (lastLogged w)(dedup_key (configured_profile w) v \<mapsto> t)
     \<and> same_network w (logYouTubeWatch v u w)"
proof -
  let ?p = "configured_profile w"
  obtain recent w2
    where rl: "recentlyLogged ?p v 120 (emit ConfigRead w) = (recent, w2)" by force
  note cs = check_stage [OF rl]
  have nr: "\<not> recent" using cs(5) fresh by simp
  let ?e = "build_entry v u ?p (fallback_meta v) None None (clock w2 0)"
  have l: "logYouTubeWatch v u w = store_stage v u ?p (fallback_meta v) None None w2"
    using nr nokey
    by (simp add: logYouTubeWatch_stages [OF rl] fetch_stage_def enrich_stage_def and_then_def)
  have fields: "entry_videoId ?e = v" "entry_url ?e = u" "entry_profile ?e = ?p"
    "entry_title ?e = None" "entry_description ?e = None" "entry_durationSeconds ?e = None"
    "entry_categoryName ?e = None" "entry_channelExtra ?e = None"
    by (simp_all add: build_entry_def fallback_meta_def)
  have shorts: "entry_isShorts ?e = (\<exists>s. u = Some s \<and> contains s ''/shorts/'')"
    by (cases u) (simp_all add: build_entry_def fallback_meta_def inferIsShorts_def includes_str_iff)
  have net: "same_network w (logYouTubeWatch v u w)"
    using cs(3) store_stage_props(4) [of w2 v u ?p "fallback_meta v" None None]
    by (simp add: l same_network_def)
  have log: "watchLog (logYouTubeWatch v u w)
      = Arr (drop (length (as_array (watchLog w)) + 1 - 5000) (as_array (watchLog w) @ [?e]))"
    using cs(2) by (simp add: l store_stage_props(2) same_storage_def)
  have mark: "lastLogged (logYouTubeWatch v u w) = (lastLogged w)(dedup_key ?p v \<mapsto> clock w2 1)"
    using cs(2) by (simp add: l store_stage_props(3) same_storage_def)
  have tr: "trace (logYouTubeWatch v u w)
      = trace w @ [ConfigRead, DedupCheck (dedup_key ?p v), AppendLog ?e,
                   MarkLogged (dedup_key ?p v), Notify ?e]"
    using cs(1) by (simp add: l store_stage_props(1))
  show ?thesis
    using tr fields shorts log mark net by blast
qed

theorem fallback_entry_witness:
  "configured_apiKey sample_world = [] \<and> \<not> suppressed ''abc'' sample_world
   \<and> (\<exists>e. watchLog (logYouTubeWatch ''abc'' (Some ''https://www.youtube.com/shorts/abc'') sample_world)
             = Arr [e]
          \<and> entry_title e = None \<and> entry_description e = None
          \<and> entry_durationSeconds e = None \<and> entry_isShorts e)"
proof -
  have k: "configured_apiKey sample_world = []"
    by (simp add: configured_apiKey_def getConfig_def sample_world_def)
  have s: "\<not> suppressed ''abc'' sample_world"
    by (simp add: suppressed_def configured_profile_def eval_defs)
  have c: "contains ''https://www.youtube.com/shorts/abc'' ''/shorts/''"
    by (simp add: includes_str_iff [symmetric])
  have l: "as_array (watchLog sample_world) = []"
    by (simp add: sample_world_def as_array_def)
  from fallback_entry [OF k s, of "Some ''https://www.youtube.com/shorts/abc''"]
  show ?thesis using k s c l by auto
qed

subsection \<open>The retry bound of the primary fetch\<close>

text \<open>
  The retry loop. \<open>fetchVideoMetadataRich\<close> with \<open>maxRetries = 3\<close> returns the outcome of
  the first successful attempt among the first four, or the error of the fourth. In an
  intake with an API key that the dedup guard lets through, the primary requests number
  at most 4, and between two consecutive attempts the task waits 300 ms times the number
  of failed attempts so far (300, 600, 900). When all four attempts fail, the last error
  is reported, the intake ends and the stores are unchanged: no entry is appended. When
  an attempt succeeds and the enrichment lookups return, the entry built from that
  attempt's record is appended, the key is marked and the entry is notified.
\<close>

theorem primary_fetch_retry_bound:
  assumes key: "configured_apiKey w \<noteq> []" and fresh: "\<not> suppressed v w"
  shows "fst (fetchVideoMetadataRich v a 3 wa)
           = attempt_result (videos_api wa (leading_failures (videos_api wa) 3))
   \<and> leading_failures (videos_api w) 3 + 1 \<le> 4
   \<and> primary_requests (trace (logYouTubeWatch v u w))
       = primary_requests (trace w) + (leading_failures (videos_api w) 3 + 1)
   \<and> (\<exists>rest. trace (logYouTubeWatch v u w)
          = trace w @ [ConfigRead, DedupCheck (dedup_key (configured_profile w) v)]
              @ retry_events (FetchPrimary v (configured_apiKey w)) 0
                  (leading_failures (videos_api w) 3)
              @ rest
        \<and> (\<forall>ev \<in> set rest. \<not> is_attempt_event ev))
   \<and> ((\<forall>i<4. isl (attempt_result (videos_api w i))) \<longrightarrow>
        trace (logYouTubeWatch v u w)
          = trace w @ [ConfigRead, DedupCheck (dedup_key (configured_profile w) v),
                       FetchPrimary v (configured_apiKey w), Backoff 300,
                       FetchPrimary v (configured_apiKey w), Backoff 600,
                       FetchPrimary v (configured_apiKey w), Backoff 900,
                       FetchPrimary v (configured_apiKey w),
                       ReportError (projl (attempt_result (videos_api w 3)))]
        \<and> same_storage w (logYouTubeWatch v u w))
   \<and> (\<forall>i<4. \<not> isl (attempt_result (videos_api w i))
          \<and> (\<forall>j<i. isl (attempt_result (videos_api w j)))
          \<and> \<not> rejects (categories_api w 0) \<and> \<not> rejects (channels_api w 0) \<longrightarrow>
        (\<exists>e rest. trace (logYouTubeWatch v u w)
             = trace w @ [ConfigRead, DedupCheck (dedup_key (configured_profile w) v)]
                 @ retry_events (FetchPrimary v (configured_apiKey w)) 0 i
                 @ rest
                 @ [AppendLog e, MarkLogged (dedup_key (configured_profile w) v), Notify e]
           \<and> (\<forall>ev \<in> set rest. is_enrichment ev)
           \<and> entry_videoId e = v
           \<and> entry_title e = meta_title (projr (attempt_result (videos_api w i)))
           \<and> entry_durationSeconds e
               = meta_durationSeconds (projr (attempt_result (videos_api w i)))
           \<and> watchLog (logYouTubeWatch v u w)
               = Arr (drop (length (as_array (watchLog w)) + 1 - 5000)
                        (as_array (watchLog w) @ [e]))
           \<and> lastLogged (logYouTubeWatch v u w) (dedup_key (configured_profile w) v) \<noteq> None))"
proof -
  let ?p = "configured_profile w" and ?a = "configured_apiKey w"
  let ?key = "dedup_key ?p v"
  let ?k = "leading_failures (videos_api w) 3"
  let ?rq = "FetchPrimary v ?a"
  let ?w' = "logYouTubeWatch v u w"
  obtain recent w2
    where rl0: "recentlyLogged ?p v 120 (emit ConfigRead w) = (recent, w2)" by force
  note cs = check_stage [OF rl0]
  have rl: "recentlyLogged ?p v 120 (emit ConfigRead w) = (False, w2)"
    using rl0 cs(5) fresh by simp
  have api2: "videos_api w2 = videos_api w" "categories_api w2 = categories_api w"
    "channels_api w2 = channels_api w"
    using cs(3) by (simp_all add: same_network_def)
  obtain r w3 where f: "fetch_stage v ?a w2 = (r, w3)" by force
  note fp = fetch_stage_props [OF f]
  have r: "r = attempt_result (videos_api w ?k)"
    and tr3: "trace w3 = trace w @ [ConfigRead, DedupCheck ?key] @ retry_events ?rq 0 ?k"
    using fp(7) [OF key] cs(1) api2 by simp_all
  have st3: "same_storage w w3" using cs(2) fp(1) by (rule same_storage_trans)
  from intake_after_fetch [OF rl f, of u] obtain rest
    where rest: "trace ?w' = trace w3 @ rest" "\<forall>ev \<in> set rest. \<not> is_attempt_event ev"
      "primary_requests rest = 0" by blast
  have c1: "fst (fetchVideoMetadataRich v a 3 wa)
           = attempt_result (videos_api wa (leading_failures (videos_api wa) 3))"
    by (simp add: fetchVideoMetadataRich_def fetch_loop_char)
  have c2: "?k + 1 \<le> 4" using leading_failures_le [of "videos_api w" 3] by simp
  have c3: "primary_requests (trace ?w') = primary_requests (trace w) + (?k + 1)"
  proof -
    have "primary_requests (ConfigRead # DedupCheck ?key # evs) = primary_requests evs" for evs
      by (simp add: primary_requests_def)
    then show ?thesis
      using rest(3)
      by (simp add: rest(1) tr3 primary_requests_append retry_events_requests)
  qed
  have c4: "\<exists>rest. trace ?w' = trace w @ [ConfigRead, DedupCheck ?key] @ retry_events ?rq 0 ?k @ rest
        \<and> (\<forall>ev \<in> set rest. \<not> is_attempt_event ev)"
    using rest by (intro exI [of _ rest]) (simp add: tr3)
  have c5: "trace ?w' = trace w @ [ConfigRead, DedupCheck ?key, ?rq, Backoff 300, ?rq,
                Backoff 600, ?rq, Backoff 900, ?rq,
                ReportError (projl (attempt_result (videos_api w 3)))]
        \<and> same_storage w ?w'"
    if allfail: "\<forall>i<4. isl (attempt_result (videos_api w i))"
  proof -
    have "\<forall>i\<le>3. isl (attempt_result (videos_api w i))" using allfail by simp
    then have k3: "?k = 3" by (rule leading_failures_all)
    have "isl (attempt_result (videos_api w 3))" using allfail by simp
    then obtain e where e: "attempt_result (videos_api w 3) = Inl e"
      by (cases "attempt_result (videos_api w 3)") auto
    then have "r = Inl e" using r k3 by simp
    then have l: "?w' = emit (ReportError e) w3"
      using f by (simp add: logYouTubeWatch_stages [OF rl])
    have "trace ?w' = trace w3 @ [ReportError e]" by (simp add: l emit_def)
    moreover have "same_storage w ?w'" using st3 by (simp add: l emit_def same_storage_def)
    ultimately show ?thesis using e by (simp add: tr3 k3 retry_events_3)
  qed
  have c6: "\<exists>e rest. trace ?w' = trace w @ [ConfigRead, DedupCheck ?key]
                 @ retry_events ?rq 0 i @ rest @ [AppendLog e, MarkLogged ?key, Notify e]
           \<and> (\<forall>ev \<in> set rest. is_enrichment ev)
           \<and> entry_videoId e = v
           \<and> entry_title e = meta_title (projr (attempt_result (videos_api w i)))
           \<and> entry_durationSeconds e
               = meta_durationSeconds (projr (attempt_result (videos_api w i)))
           \<and> watchLog ?w' = Arr (drop (length (as_array (watchLog w)) + 1 - 5000)
                        (as_array (watchLog w) @ [e]))
           \<and> lastLogged ?w' ?key \<noteq> None"
    if i: "i < 4" and ok: "\<not> isl (attempt_result (videos_api w i))"
      and before: "\<forall>j<i. isl (attempt_result (videos_api w j))"
      and nc: "\<not> rejects (categories_api w 0)" and nch: "\<not> rejects (channels_api w 0)"
    for i
  proof -
    have "i \<le> 3" using i by simp
    then have ki: "?k = i" using ok before by (rule leading_failures_first)
    obtain m where m: "attempt_result (videos_api w i) = Inr m"
      using ok by (cases "attempt_result (videos_api w i)") auto
    then have rm: "r = Inr m" using r ki by simp
    obtain r5 w5 where en: "enrich_stage ?a m w3 = (r5, w5)" by force
    note ep = enrich_stage_props [OF en]
    have "\<not> rejects (categories_api w3 0)" "\<not> rejects (channels_api w3 0)"
      using nc nch fp(2,3) api2 by simp_all
    then obtain name extra where r5: "r5 = Inr (name, extra)" using ep(5) by blast
    from ep(4) obtain evs
      where evs: "trace w5 = trace w3 @ evs" "\<forall>ev \<in> set evs. is_enrichment ev" by blast
    let ?e = "build_entry v u ?p m name extra (clock w5 0)"
    have l: "?w' = store_stage v u ?p m name extra w5"
      using f rm en r5 by (simp add: logYouTubeWatch_stages [OF rl])
    have st5: "same_storage w w5" using st3 ep(1) by (rule same_storage_trans)
    have t: "trace ?w' = trace w @ [ConfigRead, DedupCheck ?key]
                 @ retry_events ?rq 0 i @ evs @ [AppendLog ?e, MarkLogged ?key, Notify ?e]"
      using evs(1) ki by (simp add: l store_stage_props(1) tr3)
    have fl: "entry_videoId ?e = v" "entry_title ?e = meta_title m"
      "entry_durationSeconds ?e = meta_durationSeconds m"
      by (simp_all add: build_entry_def)
    have lg: "watchLog ?w' = Arr (drop (length (as_array (watchLog w)) + 1 - 5000)
                        (as_array (watchLog w) @ [?e]))"
      using st5 by (simp add: l store_stage_props(2) same_storage_def)
    have mk: "lastLogged ?w' ?key \<noteq> None" by (simp add: l store_stage_props(3))
    show ?thesis using t evs(2) fl lg mk m by (intro exI [of _ ?e] exI [of _ evs]) simp
  qed
  show ?thesis using c1 c2 c3 c4 c5 c6 by blast
qed

theorem primary_fetch_retry_bound_witness:
  "configured_apiKey keyed_world \<noteq> [] \<and> \<not> suppressed ''abc'' keyed_world
   \<and> isl (attempt_result (videos_api keyed_world 0))
   \<and> isl (attempt_result (videos_api keyed_world 1))
   \<and> isl (attempt_result (videos_api keyed_world 2))
   \<and> isl (attempt_result (videos_api keyed_world 3))
   \<and> trace (logYouTubeWatch ''abc'' None keyed_world)
       = [ConfigRead, DedupCheck ''Child:abc'',
          FetchPrimary ''abc'' ''KEY'', Backoff 300, FetchPrimary ''abc'' ''KEY'', Backoff 600,
          FetchPrimary ''abc'' ''KEY'', Backoff 900, FetchPrimary ''abc'' ''KEY'',
          ReportError FetchRejected]
   \<and> same_storage keyed_world (logYouTubeWatch ''abc'' None keyed_world)
   \<and> configured_apiKey flaky_world \<noteq> [] \<and> \<not> suppressed ''abc'' flaky_world
   \<and> (3::nat) < 4 \<and> \<not> isl (attempt_result (videos_api flaky_world 3))
   \<and> isl (attempt_result (videos_api flaky_world 0))
   \<and> isl (attempt_result (videos_api flaky_world 1))
   \<and> isl (attempt_result (videos_api flaky_world 2))
   \<and> \<not> rejects (categories_api flaky_world 0) \<and> \<not> rejects (channels_api flaky_world 0)
   \<and> primary_requests (trace (logYouTubeWatch ''abc'' None flaky_world)) = 4
   \<and> (\<exists>e. watchLog (logYouTubeWatch ''abc'' None flaky_world) = Arr [e]
          \<and> entry_title e = Some ''Song'' \<and> entry_durationSeconds e = Some (Num 200))"
proof -
  have ka: "configured_apiKey keyed_world \<noteq> []" "configured_profile keyed_world = ''Child''"
    and kf: "configured_apiKey flaky_world \<noteq> []" "configured_profile flaky_world = ''Child''"
    by (simp_all add: configured_apiKey_def configured_profile_def getConfig_def
        keyed_world_def flaky_world_def sample_world_def)
  have ka': "configured_apiKey keyed_world = ''KEY''"
    by (simp add: configured_apiKey_def getConfig_def keyed_world_def sample_world_def)
  have sa: "\<not> suppressed ''abc'' keyed_world" and sf: "\<not> suppressed ''abc'' flaky_world"
    by (simp_all add: suppressed_def configured_profile_def getConfig_def recentlyLogged_def
        emit_def dedup_key_def Let_def keyed_world_def flaky_world_def sample_world_def)
  have fa: "\<forall>i<4. isl (attempt_result (videos_api keyed_world i))"
    and ea: "attempt_result (videos_api keyed_world 3) = Inl FetchRejected"
    and ta: "trace keyed_world = []"
    by (simp_all add: attempt_result_def keyed_world_def sample_world_def)
  have ff: "\<not> isl (attempt_result (videos_api flaky_world 3))"
    "\<forall>j<3. isl (attempt_result (videos_api flaky_world j))"
    "\<not> rejects (categories_api flaky_world 0)" "\<not> rejects (channels_api flaky_world 0)"
    and lf: "leading_failures (videos_api flaky_world) 3 = 3"
    and mf: "attempt_result (videos_api flaky_world 3) = Inr (to_meta sample_video)"
    and wf: "as_array (watchLog flaky_world) = []" "primary_requests (trace flaky_world) = 0"
    by (simp_all add: attempt_result_def rejects_def flaky_world_def keyed_world_def
        sample_world_def numeral_3_eq_3 as_array_def primary_requests_def)
  have md: "meta_title (to_meta sample_video) = Some ''Song''"
    "meta_durationSeconds (to_meta sample_video) = Some (Num 200)"
    by (simp_all add: to_meta_def sample_video_def or_null_def duration_eval)
  note A = primary_fetch_retry_bound [where w = keyed_world and v = "''abc''" and u = None
      and a = "''KEY''" and wa = keyed_world, OF ka(1) sa]
  note F = primary_fetch_retry_bound [where w = flaky_world and v = "''abc''" and u = None
      and a = "''KEY''" and wa = flaky_world, OF kf(1) sf]
  from A fa have a: "trace (logYouTubeWatch ''abc'' None keyed_world)
       = [ConfigRead, DedupCheck ''Child:abc'',
          FetchPrimary ''abc'' ''KEY'', Backoff 300, FetchPrimary ''abc'' ''KEY'', Backoff 600,
          FetchPrimary ''abc'' ''KEY'', Backoff 900, FetchPrimary ''abc'' ''KEY'',
          ReportError FetchRejected]
     \<and> same_storage keyed_world (logYouTubeWatch ''abc'' None keyed_world)"
    by (simp add: ka ka' ea ta dedup_key_def)
  from F have f1: "primary_requests (trace (logYouTubeWatch ''abc'' None flaky_world)) = 4"
    by (simp add: lf wf)
  from F have "\<forall>i<4. \<not> isl (attempt_result (videos_api flaky_world i))
          \<and> (\<forall>j<i. isl (attempt_result (videos_api flaky_world j)))
          \<and> \<not> rejects (categories_api flaky_world 0) \<and> \<not> rejects (channels_api flaky_world 0) \<longrightarrow>
        (\<exists>e. entry_title e = meta_title (projr (attempt_result (videos_api flaky_world i)))
           \<and> entry_durationSeconds e
               = meta_durationSeconds (projr (attempt_result (videos_api flaky_world i)))
           \<and> watchLog (logYouTubeWatch ''abc'' None flaky_world)
               = Arr (drop (length (as_array (watchLog flaky_world)) + 1 - 5000)
                        (as_array (watchLog flaky_world) @ [e])))"
    by blast
  then have "\<exists>e. entry_title e = meta_title (projr (attempt_result (videos_api flaky_world 3)))
           \<and> entry_durationSeconds e
               = meta_durationSeconds (projr (attempt_result (videos_api flaky_world 3)))
           \<and> watchLog (logYouTubeWatch ''abc'' None flaky_world)
               = Arr (drop (length (as_array (watchLog flaky_world)) + 1 - 5000)
                        (as_array (watchLog flaky_world) @ [e]))"
    using ff by simp
  then have f2: "\<exists>e. watchLog (logYouTubeWatch ''abc'' None flaky_world) = Arr [e]
          \<and> entry_title e = Some ''Song'' \<and> entry_durationSeconds e = Some (Num 200)"
    by (auto simp: mf md wf)
  show ?thesis using ka(1) sa fa a kf(1) sf ff f1 f2 by simp
qed

text \<open>
  C1. The claim: the primary fetch makes at most 4 attempts with a backoff of 300 ms times
  the attempt number; if all 4 fail the last error is raised, the intake aborts and no
  entry is appended; if any attempt succeeds the intake proceeds and succeeds. The bound,
  the backoff and the abort are proved above. The last part does not hold of the code.
  In the state below an API key is set, nothing was logged before, the first primary
  attempt succeeds with an item of category 10, and the category request is rejected: the
  exception leaves \<open>getCategoryName\<close>, reaches the \<^verbatim>\<open>catch\<close> of \<open>logYouTubeWatch\<close>, and no
  entry is appended. In the same state with the category request answered by status 500
  instead, \<open>getCategoryName\<close> returns \<^verbatim>\<open>null\<close> and the entry is appended with no category
  name.
\<close>

theorem enrichment_rejection_loses_entry:
  "configured_apiKey broken_enrichment_world = ''KEY''
   \<and> \<not> suppressed ''abc'' broken_enrichment_world
   \<and> attempt_result (videos_api broken_enrichment_world 0) = Inr (to_meta sample_video)
   \<and> categories_api broken_enrichment_world 0 = Rejected
   \<and> watchLog broken_enrichment_world = Arr []
   \<and> watchLog (logYouTubeWatch ''abc'' (Some ''https://www.youtube.com/watch?v=abc'')
        broken_enrichment_world) = Arr []
   \<and> lastLogged (logYouTubeWatch ''abc'' (Some ''https://www.youtube.com/watch?v=abc'')
        broken_enrichment_world) = Map.empty
   \<and> trace (logYouTubeWatch ''abc'' (Some ''https://www.youtube.com/watch?v=abc'')
        broken_enrichment_world)
       = [ConfigRead, DedupCheck ''Child:abc'', FetchPrimary ''abc'' ''KEY'',
          FetchCategory ''US'' ''10'' ''KEY'', ReportError FetchRejected]
   \<and> length (as_array (watchLog (logYouTubeWatch ''abc''
        (Some ''https://www.youtube.com/watch?v=abc'')
        (broken_enrichment_world\<lparr>categories_api := (\<lambda>n. NotOk 500)\<rparr>)))) = 1
   \<and> entry_categoryName (hd (as_array (watchLog (logYouTubeWatch ''abc''
        (Some ''https://www.youtube.com/watch?v=abc'')
        (broken_enrichment_world\<lparr>categories_api := (\<lambda>n. NotOk 500)\<rparr>))))) = None
   \<and> entry_title (hd (as_array (watchLog (logYouTubeWatch ''abc''
        (Some ''https://www.youtube.com/watch?v=abc'')
        (broken_enrichment_world\<lparr>categories_api := (\<lambda>n. NotOk 500)\<rparr>))))) = Some ''Song''"
  by (simp add: configured_apiKey_def configured_profile_def suppressed_def build_entry_def
      eval_defs)

subsection \<open>The category cache\<close>

text \<open>
  C3, as the code has it. For a non-empty category id whose key is not yet cached: when
  the request is answered with a success response, with a name or without one (``not
  found''), the outcome is stored under the key, and a second lookup returns it without
  a request and without changing anything, so the two lookups issue exactly one request.
  A cached outcome is returned without a request, and it stays: no later lookup and no
  intake changes it. A response that is not \<^verbatim>\<open>ok\<close> gives \<^verbatim>\<open>null\<close> and is not cached, so
  the next lookup issues a second request.
\<close>

theorem category_cache_single_call:
  "(cid \<noteq> [] \<and> categoryNameCache w (region @ '':'' @ cid) = None
      \<and> categories_api w 0 = Ok t \<longrightarrow>
        fst (getCategoryName (Some cid) k region w) = Inr (or_null t)
        \<and> trace (snd (getCategoryName (Some cid) k region w))
            = trace w @ [FetchCategory region cid k]
        \<and> categoryNameCache (snd (getCategoryName (Some cid) k region w)) (region @ '':'' @ cid)
            = Some (or_null t)
        \<and> getCategoryName (Some cid) k2 region (snd (getCategoryName (Some cid) k region w))
            = (Inr (or_null t), snd (getCategoryName (Some cid) k region w)))
   \<and> (cid \<noteq> [] \<and> categoryNameCache w (region @ '':'' @ cid) = Some x \<longrightarrow>
        getCategoryName (Some cid) k region w = (Inr x, w))
   \<and> (categoryNameCache w key0 = Some x \<longrightarrow>
        categoryNameCache (snd (getCategoryName c a r w)) key0 = Some x
        \<and> categoryNameCache (logYouTubeWatch v u w) key0 = Some x)
   \<and> (cid \<noteq> [] \<and> categoryNameCache w (region @ '':'' @ cid) = None
      \<and> categories_api w 0 = NotOk st \<longrightarrow>
        fst (getCategoryName (Some cid) k region w) = Inr None
        \<and> categoryNameCache (snd (getCategoryName (Some cid) k region w)) = categoryNameCache w
        \<and> trace (snd (getCategoryName (Some cid) k2 region
                        (snd (getCategoryName (Some cid) k region w))))
            = trace w @ [FetchCategory region cid k, FetchCategory region cid k2])"
proof (intro conjI impI)
  assume "cid \<noteq> [] \<and> categoryNameCache w (region @ '':'' @ cid) = None
      \<and> categories_api w 0 = Ok t"
  then have g: "getCategoryName (Some cid) k region w
      = (Inr (or_null t),
         emit (FetchCategory region cid k)
           (w\<lparr>categories_api := (\<lambda>n. categories_api w (Suc n))\<rparr>)
           \<lparr>categoryNameCache := (categoryNameCache w)(region @ '':'' @ cid \<mapsto> or_null t)\<rparr>)"
    and cid: "cid \<noteq> []"
    by (simp_all add: getCategoryName_def categories_list_def or_null_def emit_def Let_def)
  show "fst (getCategoryName (Some cid) k region w) = Inr (or_null t)" by (simp add: g)
  show "trace (snd (getCategoryName (Some cid) k region w)) = trace w @ [FetchCategory region cid k]"
    by (simp add: g emit_def)
  show "categoryNameCache (snd (getCategoryName (Some cid) k region w)) (region @ '':'' @ cid)
            = Some (or_null t)"
    by (simp add: g emit_def)
  show "getCategoryName (Some cid) k2 region (snd (getCategoryName (Some cid) k region w))
            = (Inr (or_null t), snd (getCategoryName (Some cid) k region w))"
    using cid by (simp add: g) (simp add: getCategoryName_def or_null_def emit_def)
next
  assume "cid \<noteq> [] \<and> categoryNameCache w (region @ '':'' @ cid) = Some x"
  then show "getCategoryName (Some cid) k region w = (Inr x, w)"
    by (simp add: getCategoryName_def or_null_def)
next
  assume "categoryNameCache w key0 = Some x"
  then show "categoryNameCache (snd (getCategoryName c a r w)) key0 = Some x"
    by (rule cache_kept_category)
next
  assume "categoryNameCache w key0 = Some x"
  then show "categoryNameCache (logYouTubeWatch v u w) key0 = Some x"
    by (rule cache_kept_intake)
next
  assume h: "cid \<noteq> [] \<and> categoryNameCache w (region @ '':'' @ cid) = None
      \<and> categories_api w 0 = NotOk st"
  then have g: "getCategoryName (Some cid) k region w
      = (Inr None, emit (FetchCategory region cid k)
           (w\<lparr>categories_api := (\<lambda>n. categories_api w (Suc n))\<rparr>))"
    by (simp add: getCategoryName_def categories_list_def or_null_def)
  show "fst (getCategoryName (Some cid) k region w) = Inr None" by (simp add: g)
  show "categoryNameCache (snd (getCategoryName (Some cid) k region w)) = categoryNameCache w"
    by (simp add: g emit_def)
  show "trace (snd (getCategoryName (Some cid) k2 region
                        (snd (getCategoryName (Some cid) k region w))))
            = trace w @ [FetchCategory region cid k, FetchCategory region cid k2]"
    using h
    by (simp add: g)
       (simp add: getCategoryName_def categories_list_def or_null_def emit_def Let_def
          split: response.splits)
qed

theorem category_cache_single_call_witness:
  "''10'' \<noteq> [] \<and> categoryNameCache (sample_world\<lparr>categories_api := (\<lambda>n. Ok None)\<rparr>) (''US'' @ '':'' @ ''10'') = None
   \<and> categories_api (sample_world\<lparr>categories_api := (\<lambda>n. Ok None)\<rparr>) 0 = Ok None
   \<and> fst (getCategoryName (Some ''10'') ''KEY'' ''US'' (sample_world\<lparr>categories_api := (\<lambda>n. Ok None)\<rparr>))
       = Inr None
   \<and> trace (snd (getCategoryName (Some ''10'') ''KEY'' ''US''
        (snd (getCategoryName (Some ''10'') ''KEY'' ''US''
               (sample_world\<lparr>categories_api := (\<lambda>n. Ok None)\<rparr>)))))
       = [FetchCategory ''US'' ''10'' ''KEY'']"
proof -
  let ?w = "sample_world\<lparr>categories_api := (\<lambda>n. Ok None)\<rparr>"
  have h: "''10'' \<noteq> [] \<and> categoryNameCache ?w (''US'' @ '':'' @ ''10'') = None
      \<and> categories_api ?w 0 = Ok None"
    by (simp add: sample_world_def)
  have t: "trace ?w = []" by (simp add: sample_world_def)
  from category_cache_single_call [of "''10''" ?w "''US''" None "''KEY''" "''KEY''"] h
  have "fst (getCategoryName (Some ''10'') ''KEY'' ''US'' ?w) = Inr (or_null None)
        \<and> trace (snd (getCategoryName (Some ''10'') ''KEY'' ''US'' ?w))
            = trace ?w @ [FetchCategory ''US'' ''10'' ''KEY'']
        \<and> getCategoryName (Some ''10'') ''KEY'' ''US'' (snd (getCategoryName (Some ''10'') ''KEY'' ''US'' ?w))
            = (Inr (or_null None), snd (getCategoryName (Some ''10'') ''KEY'' ''US'' ?w))"
    by blast
  then show ?thesis using h t by (simp add: or_null_def)
qed

text \<open>
  C3, as the claim states it, fails when the first lookup is answered with status 500:
  nothing is cached and the second lookup issues a second request.
\<close>

theorem category_cache_single_call_counterexample:
  "trace (snd (getCategoryName (Some ''10'') ''KEY'' ''US''
                (snd (getCategoryName (Some ''10'') ''KEY'' ''US'' sample_world))))
     = [FetchCategory ''US'' ''10'' ''KEY'', FetchCategory ''US'' ''10'' ''KEY'']"
  by (simp add: getCategoryName_def categories_list_def or_null_def emit_def sample_world_def)

end
